theory Spec2Isabelle
  imports Main "HOL-Library.Sublist" "HOL-Library.Multiset"
begin

text \<open>
  A model of the WebDAV Markdown Manager extension: its path functions, its WebDAV client
  on top of the webdav library, the clipboard and the copy, move and paste of the tree
  provider, and the opening of documents by the file system provider; followed by the
  properties of these that the specification of the extension states.
\<close>

section \<open>JavaScript strings\<close>

text \<open>
  A JavaScript string is modelled by the list of bytes of its UTF-8 encoding.  Every
  search pattern of the modelled code is ASCII, and an ASCII byte never occurs inside a
  multi-byte UTF-8 sequence, so \<open>startsWith\<close>, \<open>includes\<close> and the regular
  expressions on the separators see in the bytes what the program sees in its UTF-16 code
  units.  \<open>substring(n)\<close> is only ever applied with \<open>n\<close> the length of a prefix
  that was just matched, which is \<open>drop\<close> of that prefix in either encoding.
\<close>

definition startsWith :: "string \<Rightarrow> string \<Rightarrow> bool" where
  "startsWith s t = prefix t s"

definition endsWith :: "string \<Rightarrow> string \<Rightarrow> bool" where
  "endsWith s t = suffix t s"

fun str_includes :: "string \<Rightarrow> string \<Rightarrow> bool" where
  "str_includes [] t = (t = [])"
| "str_includes (c # cs) t = (prefix t (c # cs) \<or> str_includes cs t)"

text \<open>
  \<open>String.prototype.trim\<close> removes from both ends the white space and the line
  terminators of ECMAScript: U+0009 to U+000D, U+0020, U+00A0, U+1680, U+2000 to U+200A,
  U+2028, U+2029, U+202F, U+205F, U+3000 and U+FEFF, listed here by their UTF-8
  encodings.  A lead byte of UTF-8 is never a continuation byte, so a string that ends
  with the bytes of one of these characters ends with that character.
  \<open>stripAll\<close> removes from the head of a string every leading occurrence of the
  given byte sequences.
\<close>

definition whiteSpace :: "string list" where
  "whiteSpace =
     [[CHR 0x09], [CHR 0x0A], [CHR 0x0B], [CHR 0x0C], [CHR 0x0D], [CHR 0x20],
      [CHR 0xC2, CHR 0xA0], [CHR 0xE1, CHR 0x9A, CHR 0x80],
      [CHR 0xE2, CHR 0x80, CHR 0x80], [CHR 0xE2, CHR 0x80, CHR 0x81],
      [CHR 0xE2, CHR 0x80, CHR 0x82], [CHR 0xE2, CHR 0x80, CHR 0x83],
      [CHR 0xE2, CHR 0x80, CHR 0x84], [CHR 0xE2, CHR 0x80, CHR 0x85],
      [CHR 0xE2, CHR 0x80, CHR 0x86], [CHR 0xE2, CHR 0x80, CHR 0x87],
      [CHR 0xE2, CHR 0x80, CHR 0x88], [CHR 0xE2, CHR 0x80, CHR 0x89],
      [CHR 0xE2, CHR 0x80, CHR 0x8A], [CHR 0xE2, CHR 0x80, CHR 0xA8],
      [CHR 0xE2, CHR 0x80, CHR 0xA9], [CHR 0xE2, CHR 0x80, CHR 0xAF],
      [CHR 0xE2, CHR 0x81, CHR 0x9F], [CHR 0xE3, CHR 0x80, CHR 0x80],
      [CHR 0xEF, CHR 0xBB, CHR 0xBF]]"

function stripAll :: "string list \<Rightarrow> string \<Rightarrow> string" where
  "stripAll ws s =
     (case find (\<lambda>w. w \<noteq> [] \<and> prefix w s) ws of
        None \<Rightarrow> s
      | Some w \<Rightarrow> stripAll ws (drop (length w) s))"
  by pat_completeness auto
termination
  by (relation "measure (\<lambda>(ws, s). length s)") (auto simp: find_Some_iff prefix_def)

declare stripAll.simps [simp del]

definition trimStart :: "string \<Rightarrow> string" where
  "trimStart s = stripAll whiteSpace s"

definition trimEnd :: "string \<Rightarrow> string" where
  "trimEnd s = rev (stripAll (map rev whiteSpace) (rev s))"

definition trim :: "string \<Rightarrow> string" where
  "trim s = trimEnd (trimStart s)"

text \<open>
  \<open>encodeURIComponent\<close>: the unreserved characters stay, every other byte of the
  UTF-8 encoding becomes \<open>%XX\<close> in upper-case hexadecimal.
\<close>

definition hexDigit :: "nat \<Rightarrow> char" where
  "hexDigit n = (''0123456789ABCDEF'') ! (n mod 16)"

definition uriUnreserved :: "char \<Rightarrow> bool" where
  "uriUnreserved c =
     (let n = (of_char c :: nat) in
        (65 \<le> n \<and> n \<le> 90) \<or> (97 \<le> n \<and> n \<le> 122) \<or> (48 \<le> n \<and> n \<le> 57) \<or>
        c \<in> set ''-_.!~*'' \<or> n = 39 \<or> c \<in> set ''()'')"

definition encodeURIComponent :: "string \<Rightarrow> string" where
  "encodeURIComponent s =
     concat (map (\<lambda>c. if uriUnreserved c then [c]
                       else [CHR ''%'', hexDigit (of_char c div 16), hexDigit (of_char c mod 16)]) s)"

section \<open>Node's path module (POSIX flavour)\<close>

text \<open>
  \<open>path.basename\<close> drops the trailing slashes and keeps what follows the last
  remaining slash.  \<open>path.dirname\<close> scans from the end, never looking at index 0:
  it skips the trailing slashes and the last segment and cuts at the slash before it.
\<close>

definition path_basename :: "string \<Rightarrow> string" where
  "path_basename p =
     rev (takeWhile (\<lambda>c. c \<noteq> CHR ''/'') (dropWhile (\<lambda>c. c = CHR ''/'') (rev p)))"

definition path_dirname :: "string \<Rightarrow> string" where
  "path_dirname p =
     (case p of
        [] \<Rightarrow> ''.''
      | c # t \<Rightarrow>
          (case dropWhile (\<lambda>c. c \<noteq> CHR ''/'') (dropWhile (\<lambda>c. c = CHR ''/'') (rev t)) of
             [] \<Rightarrow> if c = CHR ''/'' then ''/'' else ''.''
           | _ # rest \<Rightarrow> if c = CHR ''/'' \<and> rest = [] then ''//'' else c # rev rest))"

section \<open>PathUtils\<close>

text \<open>
  The static functions \<open>normalizeWebDAVPath\<close> and \<open>getRelativePathFromBase\<close> of
  pathUtils.ts.  Both begin with the same chain of four \<open>replace\<close> calls, given here
  one by one and together as \<open>cleanPath\<close>.
\<close>

text \<open>\<open>.replace(/\\/g, '/')\<close>: every backslash becomes a slash.\<close>

definition replaceBackslashes :: "string \<Rightarrow> string" where
  "replaceBackslashes s = map (\<lambda>c. if c = CHR 0x5C then CHR ''/'' else c) s"

text \<open>\<open>.replace(/\/+/g, '/')\<close>: every maximal run of slashes becomes one slash.\<close>

fun collapseSlashes :: "string \<Rightarrow> string" where
  "collapseSlashes [] = []"
| "collapseSlashes [c] = [c]"
| "collapseSlashes (c # d # cs) =
     (if c = CHR ''/'' \<and> d = CHR ''/'' then collapseSlashes (d # cs)
      else c # collapseSlashes (d # cs))"

text \<open>\<open>.replace(/^\//, '')\<close> and \<open>.replace(/\/$/, '')\<close>: one slash off each end.\<close>

definition stripLeadingSlash :: "string \<Rightarrow> string" where
  "stripLeadingSlash s = (case s of [] \<Rightarrow> [] | c # cs \<Rightarrow> if c = CHR ''/'' then cs else s)"

definition stripTrailingSlash :: "string \<Rightarrow> string" where
  "stripTrailingSlash s = (if s \<noteq> [] \<and> last s = CHR ''/'' then butlast s else s)"

text \<open>The chain of four replacements that both functions of PathUtils start with.\<close>

definition cleanPath :: "string \<Rightarrow> string" where
  "cleanPath p = stripTrailingSlash (stripLeadingSlash (collapseSlashes (replaceBackslashes p)))"

definition normalizeWebDAVPath :: "string \<Rightarrow> string \<Rightarrow> string" where
  "normalizeWebDAVPath inputPath basePath =
     (if inputPath = [] then (if basePath = ''/'' then ''/'' else basePath)
      else let normalized = cleanPath inputPath in
        if normalized = [] then (if basePath = ''/'' then ''/'' else stripTrailingSlash basePath)
        else ''/'' @ normalized)"

definition getRelativePathFromBase :: "string \<Rightarrow> string \<Rightarrow> string" where
  "getRelativePathFromBase fullPath basePath =
     (let normalizedFullPath = cleanPath fullPath;
          normalizedBasePath = cleanPath basePath
      in if normalizedBasePath = [] \<or> normalizedBasePath = ''/'' then normalizedFullPath
         else if startsWith normalizedFullPath (normalizedBasePath @ ''/'')
           then drop (length normalizedBasePath + 1) normalizedFullPath
         else if normalizedFullPath = normalizedBasePath then []
         else normalizedFullPath)"

text \<open>
  Shape predicates used to describe what \<open>cleanPath\<close> returns: \<open>adjSlash\<close> holds of
  a string with two slashes in a row, \<open>isClean\<close> of a string without backslash,
  without two slashes in a row and without a slash at either end.
\<close>

fun adjSlash :: "string \<Rightarrow> bool" where
  "adjSlash [] = False"
| "adjSlash [c] = False"
| "adjSlash (c # d # cs) = ((c = CHR ''/'' \<and> d = CHR ''/'') \<or> adjSlash (d # cs))"

definition isClean :: "string \<Rightarrow> bool" where
  "isClean s \<longleftrightarrow>
     CHR 0x5C \<notin> set s \<and> \<not> adjSlash s \<and> (s = [] \<or> (hd s \<noteq> CHR ''/'' \<and> last s \<noteq> CHR ''/''))"

section \<open>Errors and their messages\<close>

text \<open>
  A thrown value is an \<open>Error\<close> object: its message, and the \<open>status\<close> and
  \<open>code\<close> properties that the webdav library and Node attach to some of them.
  \<open>new Error(m)\<close> has neither.  The messages of the program are Chinese; they are
  given as UTF-8 bytes, with an English gloss.
\<close>

record error =
  message :: string
  status :: "int option"
  code :: "string option"

definition Error :: "string \<Rightarrow> error" where
  "Error m = \<lparr>message = m, status = None, code = None\<rparr>"

text \<open>The test \<open>e.message.includes('404') || e.message.includes('Not Found')\<close>.\<close>

definition mentions404 :: "error \<Rightarrow> bool" where
  "mentions404 e = (str_includes (message e) ''404'' \<or> str_includes (message e) ''Not Found'')"

definition msg_not_connected :: string where \<comment> \<open>not connected to the WebDAV server\<close>
  "msg_not_connected =
     [CHR 0xE6, CHR 0x9C, CHR 0xAA, CHR 0xE8, CHR 0xBF, CHR 0x9E, CHR 0xE6, CHR 0x8E,
     CHR 0xA5, CHR 0xE5, CHR 0x88, CHR 0xB0] @ ''WebDAV'' @ [CHR 0xE6, CHR 0x9C,
     CHR 0x8D, CHR 0xE5, CHR 0x8A, CHR 0xA1, CHR 0xE5, CHR 0x99, CHR 0xA8]"

definition msg_client_uninit :: string where \<comment> \<open>WebDAV client not initialised\<close>
  "msg_client_uninit =
     ''WebDAV'' @ [CHR 0xE5, CHR 0xAE, CHR 0xA2, CHR 0xE6, CHR 0x88, CHR 0xB7, CHR 0xE7,
     CHR 0xAB, CHR 0xAF, CHR 0xE6, CHR 0x9C, CHR 0xAA, CHR 0xE5, CHR 0x88, CHR 0x9D,
     CHR 0xE5, CHR 0xA7, CHR 0x8B, CHR 0xE5, CHR 0x8C, CHR 0x96]"

definition msg_client_bad_init :: string where \<comment> \<open>WebDAV client not initialised correctly\<close>
  "msg_client_bad_init =
     ''WebDAV'' @ [CHR 0xE5, CHR 0xAE, CHR 0xA2, CHR 0xE6, CHR 0x88, CHR 0xB7, CHR 0xE7,
     CHR 0xAB, CHR 0xAF, CHR 0xE6, CHR 0x9C, CHR 0xAA, CHR 0xE6, CHR 0xAD, CHR 0xA3,
     CHR 0xE7, CHR 0xA1, CHR 0xAE, CHR 0xE5, CHR 0x88, CHR 0x9D, CHR 0xE5, CHR 0xA7,
     CHR 0x8B, CHR 0xE5, CHR 0x8C, CHR 0x96]"

definition msg_file_missing :: string where \<comment> \<open>file does not exist: (the path follows)\<close>
  "msg_file_missing =
     [CHR 0xE6, CHR 0x96, CHR 0x87, CHR 0xE4, CHR 0xBB, CHR 0xB6, CHR 0xE4, CHR 0xB8,
     CHR 0x8D, CHR 0xE5, CHR 0xAD, CHR 0x98, CHR 0xE5, CHR 0x9C, CHR 0xA8] @ '': ''"

definition msg_no_permission :: string where \<comment> \<open>no permission to access this file\<close>
  "msg_no_permission =
     [CHR 0xE6, CHR 0xB2, CHR 0xA1, CHR 0xE6, CHR 0x9C, CHR 0x89, CHR 0xE6, CHR 0x9D,
     CHR 0x83, CHR 0xE9, CHR 0x99, CHR 0x90, CHR 0xE8, CHR 0xAE, CHR 0xBF, CHR 0xE9,
     CHR 0x97, CHR 0xAE, CHR 0xE6, CHR 0xAD, CHR 0xA4, CHR 0xE6, CHR 0x96, CHR 0x87,
     CHR 0xE4, CHR 0xBB, CHR 0xB6]"

definition msg_path_missing :: string where \<comment> \<open>path does not exist: (the path follows)\<close>
  "msg_path_missing =
     [CHR 0xE8, CHR 0xB7, CHR 0xAF, CHR 0xE5, CHR 0xBE, CHR 0x84, CHR 0xE4, CHR 0xB8,
     CHR 0x8D, CHR 0xE5, CHR 0xAD, CHR 0x98, CHR 0xE5, CHR 0x9C, CHR 0xA8] @ '': ''"

definition msg_auth_reconnect :: string where \<comment> \<open>authentication failed, please reconnect\<close>
  "msg_auth_reconnect =
     [CHR 0xE8, CHR 0xAE, CHR 0xA4, CHR 0xE8, CHR 0xAF, CHR 0x81, CHR 0xE5, CHR 0xA4,
     CHR 0xB1, CHR 0xE8, CHR 0xB4, CHR 0xA5, CHR 0xEF, CHR 0xBC, CHR 0x8C, CHR 0xE8,
     CHR 0xAF, CHR 0xB7, CHR 0xE9, CHR 0x87, CHR 0x8D, CHR 0xE6, CHR 0x96, CHR 0xB0,
     CHR 0xE8, CHR 0xBF, CHR 0x9E, CHR 0xE6, CHR 0x8E, CHR 0xA5]"

definition msg_request_timeout :: string where \<comment> \<open>request timed out, check the network connection\<close>
  "msg_request_timeout =
     [CHR 0xE8, CHR 0xAF, CHR 0xB7, CHR 0xE6, CHR 0xB1, CHR 0x82, CHR 0xE8, CHR 0xB6,
     CHR 0x85, CHR 0xE6, CHR 0x97, CHR 0xB6, CHR 0xEF, CHR 0xBC, CHR 0x8C, CHR 0xE8,
     CHR 0xAF, CHR 0xB7, CHR 0xE6, CHR 0xA3, CHR 0x80, CHR 0xE6, CHR 0x9F, CHR 0xA5,
     CHR 0xE7, CHR 0xBD, CHR 0x91, CHR 0xE7, CHR 0xBB, CHR 0x9C, CHR 0xE8, CHR 0xBF,
     CHR 0x9E, CHR 0xE6, CHR 0x8E, CHR 0xA5]"

definition msg_network_failed :: string where \<comment> \<open>network connection failed, check the network settings\<close>
  "msg_network_failed =
     [CHR 0xE7, CHR 0xBD, CHR 0x91, CHR 0xE7, CHR 0xBB, CHR 0x9C, CHR 0xE8, CHR 0xBF,
     CHR 0x9E, CHR 0xE6, CHR 0x8E, CHR 0xA5, CHR 0xE5, CHR 0xA4, CHR 0xB1, CHR 0xE8,
     CHR 0xB4, CHR 0xA5, CHR 0xEF, CHR 0xBC, CHR 0x8C, CHR 0xE8, CHR 0xAF, CHR 0xB7,
     CHR 0xE6, CHR 0xA3, CHR 0x80, CHR 0xE6, CHR 0x9F, CHR 0xA5, CHR 0xE7, CHR 0xBD,
     CHR 0x91, CHR 0xE7, CHR 0xBB, CHR 0x9C, CHR 0xE8, CHR 0xAE, CHR 0xBE, CHR 0xE7,
     CHR 0xBD, CHR 0xAE]"

definition msg_copy_source_missing :: string where \<comment> \<open>copy failed: the source file does not exist: (the path follows)\<close>
  "msg_copy_source_missing =
     [CHR 0xE5, CHR 0xA4, CHR 0x8D, CHR 0xE5, CHR 0x88, CHR 0xB6, CHR 0xE6, CHR 0x93,
     CHR 0x8D, CHR 0xE4, CHR 0xBD, CHR 0x9C, CHR 0xE5, CHR 0xA4, CHR 0xB1, CHR 0xE8,
     CHR 0xB4, CHR 0xA5, CHR 0xEF, CHR 0xBC, CHR 0x9A, CHR 0xE6, CHR 0xBA, CHR 0x90,
     CHR 0xE6, CHR 0x96, CHR 0x87, CHR 0xE4, CHR 0xBB, CHR 0xB6, CHR 0xE4, CHR 0xB8,
     CHR 0x8D, CHR 0xE5, CHR 0xAD, CHR 0x98, CHR 0xE5, CHR 0x9C, CHR 0xA8] @ '': ''"

definition msg_cannot_read :: string where \<comment> \<open>cannot read the file content: (the cause follows)\<close>
  "msg_cannot_read =
     [CHR 0xE6, CHR 0x97, CHR 0xA0, CHR 0xE6, CHR 0xB3, CHR 0x95, CHR 0xE8, CHR 0xAF,
     CHR 0xBB, CHR 0xE5, CHR 0x8F, CHR 0x96, CHR 0xE6, CHR 0x96, CHR 0x87, CHR 0xE4,
     CHR 0xBB, CHR 0xB6, CHR 0xE5, CHR 0x86, CHR 0x85, CHR 0xE5, CHR 0xAE, CHR 0xB9] @
     '': ''"

definition msg_unknown_error :: string where \<comment> \<open>unknown error\<close>
  "msg_unknown_error =
     [CHR 0xE6, CHR 0x9C, CHR 0xAA, CHR 0xE7, CHR 0x9F, CHR 0xA5, CHR 0xE9, CHR 0x94,
     CHR 0x99, CHR 0xE8, CHR 0xAF, CHR 0xAF]"

definition str_timeout_zh :: string where \<comment> \<open>timed out\<close>
  "str_timeout_zh =
     [CHR 0xE8, CHR 0xB6, CHR 0x85, CHR 0xE6, CHR 0x97, CHR 0xB6]"

definition str_auth_failed :: string where \<comment> \<open>authentication failed\<close>
  "str_auth_failed =
     [CHR 0xE8, CHR 0xAE, CHR 0xA4, CHR 0xE8, CHR 0xAF, CHR 0x81, CHR 0xE5, CHR 0xA4,
     CHR 0xB1, CHR 0xE8, CHR 0xB4, CHR 0xA5]"

definition msg_connect_empty :: string where \<comment> \<open>server address, user name or password must not be empty\<close>
  "msg_connect_empty =
     [CHR 0xE6, CHR 0x9C, CHR 0x8D, CHR 0xE5, CHR 0x8A, CHR 0xA1, CHR 0xE5, CHR 0x99,
     CHR 0xA8, CHR 0xE5, CHR 0x9C, CHR 0xB0, CHR 0xE5, CHR 0x9D, CHR 0x80, CHR 0xE3,
     CHR 0x80, CHR 0x81, CHR 0xE7, CHR 0x94, CHR 0xA8, CHR 0xE6, CHR 0x88, CHR 0xB7,
     CHR 0xE5, CHR 0x90, CHR 0x8D, CHR 0xE6, CHR 0x88, CHR 0x96, CHR 0xE5, CHR 0xAF,
     CHR 0x86, CHR 0xE7, CHR 0xA0, CHR 0x81, CHR 0xE4, CHR 0xB8, CHR 0x8D, CHR 0xE8,
     CHR 0x83, CHR 0xBD, CHR 0xE4, CHR 0xB8, CHR 0xBA, CHR 0xE7, CHR 0xA9, CHR 0xBA]"

definition msg_connect_scheme :: string where \<comment> \<open>the server address must start with http:// or https://\<close>
  "msg_connect_scheme =
     [CHR 0xE6, CHR 0x9C, CHR 0x8D, CHR 0xE5, CHR 0x8A, CHR 0xA1, CHR 0xE5, CHR 0x99,
     CHR 0xA8, CHR 0xE5, CHR 0x9C, CHR 0xB0, CHR 0xE5, CHR 0x9D, CHR 0x80, CHR 0xE5,
     CHR 0xBF, CHR 0x85, CHR 0xE9, CHR 0xA1, CHR 0xBB, CHR 0xE4, CHR 0xBB, CHR 0xA5] @
     '' http:// '' @ [CHR 0xE6, CHR 0x88, CHR 0x96] @ '' https:// '' @ [CHR 0xE5,
     CHR 0xBC, CHR 0x80, CHR 0xE5, CHR 0xA4, CHR 0xB4]"

definition msg_connect_timeout :: string where \<comment> \<open>connection timed out, check the network connection or the server state\<close>
  "msg_connect_timeout =
     [CHR 0xE8, CHR 0xBF, CHR 0x9E, CHR 0xE6, CHR 0x8E, CHR 0xA5, CHR 0xE8, CHR 0xB6,
     CHR 0x85, CHR 0xE6, CHR 0x97, CHR 0xB6, CHR 0xEF, CHR 0xBC, CHR 0x8C, CHR 0xE8,
     CHR 0xAF, CHR 0xB7, CHR 0xE6, CHR 0xA3, CHR 0x80, CHR 0xE6, CHR 0x9F, CHR 0xA5,
     CHR 0xE7, CHR 0xBD, CHR 0x91, CHR 0xE7, CHR 0xBB, CHR 0x9C, CHR 0xE8, CHR 0xBF,
     CHR 0x9E, CHR 0xE6, CHR 0x8E, CHR 0xA5, CHR 0xE6, CHR 0x88, CHR 0x96, CHR 0xE6,
     CHR 0x9C, CHR 0x8D, CHR 0xE5, CHR 0x8A, CHR 0xA1, CHR 0xE5, CHR 0x99, CHR 0xA8,
     CHR 0xE7, CHR 0x8A, CHR 0xB6, CHR 0xE6, CHR 0x80, CHR 0x81]"

definition msg_connect_auth :: string where \<comment> \<open>authentication failed, check user name and password\<close>
  "msg_connect_auth =
     [CHR 0xE8, CHR 0xAE, CHR 0xA4, CHR 0xE8, CHR 0xAF, CHR 0x81, CHR 0xE5, CHR 0xA4,
     CHR 0xB1, CHR 0xE8, CHR 0xB4, CHR 0xA5, CHR 0xEF, CHR 0xBC, CHR 0x8C, CHR 0xE8,
     CHR 0xAF, CHR 0xB7, CHR 0xE6, CHR 0xA3, CHR 0x80, CHR 0xE6, CHR 0x9F, CHR 0xA5,
     CHR 0xE7, CHR 0x94, CHR 0xA8, CHR 0xE6, CHR 0x88, CHR 0xB7, CHR 0xE5, CHR 0x90,
     CHR 0x8D, CHR 0xE5, CHR 0x92, CHR 0x8C, CHR 0xE5, CHR 0xAF, CHR 0x86, CHR 0xE7,
     CHR 0xA0, CHR 0x81]"

definition msg_connect_404 :: string where \<comment> \<open>the server address does not exist or cannot be reached\<close>
  "msg_connect_404 =
     [CHR 0xE6, CHR 0x9C, CHR 0x8D, CHR 0xE5, CHR 0x8A, CHR 0xA1, CHR 0xE5, CHR 0x99,
     CHR 0xA8, CHR 0xE5, CHR 0x9C, CHR 0xB0, CHR 0xE5, CHR 0x9D, CHR 0x80, CHR 0xE4,
     CHR 0xB8, CHR 0x8D, CHR 0xE5, CHR 0xAD, CHR 0x98, CHR 0xE5, CHR 0x9C, CHR 0xA8,
     CHR 0xE6, CHR 0x88, CHR 0x96, CHR 0xE6, CHR 0x97, CHR 0xA0, CHR 0xE6, CHR 0xB3,
     CHR 0x95, CHR 0xE8, CHR 0xAE, CHR 0xBF, CHR 0xE9, CHR 0x97, CHR 0xAE]"

definition msg_connect_dns :: string where \<comment> \<open>cannot resolve the server address, check the network connection\<close>
  "msg_connect_dns =
     [CHR 0xE6, CHR 0x97, CHR 0xA0, CHR 0xE6, CHR 0xB3, CHR 0x95, CHR 0xE8, CHR 0xA7,
     CHR 0xA3, CHR 0xE6, CHR 0x9E, CHR 0x90, CHR 0xE6, CHR 0x9C, CHR 0x8D, CHR 0xE5,
     CHR 0x8A, CHR 0xA1, CHR 0xE5, CHR 0x99, CHR 0xA8, CHR 0xE5, CHR 0x9C, CHR 0xB0,
     CHR 0xE5, CHR 0x9D, CHR 0x80, CHR 0xEF, CHR 0xBC, CHR 0x8C, CHR 0xE8, CHR 0xAF,
     CHR 0xB7, CHR 0xE6, CHR 0xA3, CHR 0x80, CHR 0xE6, CHR 0x9F, CHR 0xA5, CHR 0xE7,
     CHR 0xBD, CHR 0x91, CHR 0xE7, CHR 0xBB, CHR 0x9C, CHR 0xE8, CHR 0xBF, CHR 0x9E,
     CHR 0xE6, CHR 0x8E, CHR 0xA5]"

definition msg_connect_refused :: string where \<comment> \<open>connection refused, check the server address and port\<close>
  "msg_connect_refused =
     [CHR 0xE8, CHR 0xBF, CHR 0x9E, CHR 0xE6, CHR 0x8E, CHR 0xA5, CHR 0xE8, CHR 0xA2,
     CHR 0xAB, CHR 0xE6, CHR 0x8B, CHR 0x92, CHR 0xE7, CHR 0xBB, CHR 0x9D, CHR 0xEF,
     CHR 0xBC, CHR 0x8C, CHR 0xE8, CHR 0xAF, CHR 0xB7, CHR 0xE6, CHR 0xA3, CHR 0x80,
     CHR 0xE6, CHR 0x9F, CHR 0xA5, CHR 0xE6, CHR 0x9C, CHR 0x8D, CHR 0xE5, CHR 0x8A,
     CHR 0xA1, CHR 0xE5, CHR 0x99, CHR 0xA8, CHR 0xE5, CHR 0x9C, CHR 0xB0, CHR 0xE5,
     CHR 0x9D, CHR 0x80, CHR 0xE5, CHR 0x92, CHR 0x8C, CHR 0xE7, CHR 0xAB, CHR 0xAF,
     CHR 0xE5, CHR 0x8F, CHR 0xA3]"

definition msg_connect_etimedout :: string where \<comment> \<open>connection timed out, check the network connection\<close>
  "msg_connect_etimedout =
     [CHR 0xE8, CHR 0xBF, CHR 0x9E, CHR 0xE6, CHR 0x8E, CHR 0xA5, CHR 0xE8, CHR 0xB6,
     CHR 0x85, CHR 0xE6, CHR 0x97, CHR 0xB6, CHR 0xEF, CHR 0xBC, CHR 0x8C, CHR 0xE8,
     CHR 0xAF, CHR 0xB7, CHR 0xE6, CHR 0xA3, CHR 0x80, CHR 0xE6, CHR 0x9F, CHR 0xA5,
     CHR 0xE7, CHR 0xBD, CHR 0x91, CHR 0xE7, CHR 0xBB, CHR 0x9C, CHR 0xE8, CHR 0xBF,
     CHR 0x9E, CHR 0xE6, CHR 0x8E, CHR 0xA5]"

definition msg_connect_cert :: string where \<comment> \<open>the SSL certificate has expired, contact the server administrator\<close>
  "msg_connect_cert =
     ''SSL'' @ [CHR 0xE8, CHR 0xAF, CHR 0x81, CHR 0xE4, CHR 0xB9, CHR 0xA6, CHR 0xE5,
     CHR 0xB7, CHR 0xB2, CHR 0xE8, CHR 0xBF, CHR 0x87, CHR 0xE6, CHR 0x9C, CHR 0x9F,
     CHR 0xEF, CHR 0xBC, CHR 0x8C, CHR 0xE8, CHR 0xAF, CHR 0xB7, CHR 0xE8, CHR 0x81,
     CHR 0x94, CHR 0xE7, CHR 0xB3, CHR 0xBB, CHR 0xE6, CHR 0x9C, CHR 0x8D, CHR 0xE5,
     CHR 0x8A, CHR 0xA1, CHR 0xE5, CHR 0x99, CHR 0xA8, CHR 0xE7, CHR 0xAE, CHR 0xA1,
     CHR 0xE7, CHR 0x90, CHR 0x86, CHR 0xE5, CHR 0x91, CHR 0x98]"

definition msg_connect_test_failed :: string where \<comment> \<open>connection test failed: (the cause follows)\<close>
  "msg_connect_test_failed =
     [CHR 0xE8, CHR 0xBF, CHR 0x9E, CHR 0xE6, CHR 0x8E, CHR 0xA5, CHR 0xE6, CHR 0xB5,
     CHR 0x8B, CHR 0xE8, CHR 0xAF, CHR 0x95, CHR 0xE5, CHR 0xA4, CHR 0xB1, CHR 0xE8,
     CHR 0xB4, CHR 0xA5] @ '': ''"

definition label_unknown :: string where \<comment> \<open>unknown\<close>
  "label_unknown =
     [CHR 0xE6, CHR 0x9C, CHR 0xAA, CHR 0xE7, CHR 0x9F, CHR 0xA5]"

definition label_empty_directory :: string where \<comment> \<open>the directory is empty, click to create or upload a file\<close>
  "label_empty_directory =
     [CHR 0xE7, CHR 0x9B, CHR 0xAE, CHR 0xE5, CHR 0xBD, CHR 0x95, CHR 0xE4, CHR 0xB8,
     CHR 0xBA, CHR 0xE7, CHR 0xA9, CHR 0xBA, CHR 0xEF, CHR 0xBC, CHR 0x8C, CHR 0xE7,
     CHR 0x82, CHR 0xB9, CHR 0xE5, CHR 0x87, CHR 0xBB, CHR 0xE5, CHR 0x88, CHR 0x9B,
     CHR 0xE5, CHR 0xBB, CHR 0xBA, CHR 0xE6, CHR 0x96, CHR 0x87, CHR 0xE4, CHR 0xBB,
     CHR 0xB6, CHR 0xE6, CHR 0x88, CHR 0x96, CHR 0xE4, CHR 0xB8, CHR 0x8A, CHR 0xE4,
     CHR 0xBC, CHR 0xA0, CHR 0xE6, CHR 0x96, CHR 0x87, CHR 0xE4, CHR 0xBB, CHR 0xB6]"

definition action_copy :: string where \<comment> \<open>copy\<close>
  "action_copy =
     [CHR 0xE5, CHR 0xA4, CHR 0x8D, CHR 0xE5, CHR 0x88, CHR 0xB6]"

definition action_cut :: string where \<comment> \<open>cut\<close>
  "action_cut =
     [CHR 0xE5, CHR 0x89, CHR 0xAA, CHR 0xE5, CHR 0x88, CHR 0x87]"


section \<open>The remote store as seen through the webdav library\<close>

text \<open>
  An entry as the library reports it.  A string property that is absent is the empty
  string (both are falsy for \<open>||\<close> and \<open>&&\<close>); an absent \<open>type\<close> is
  \<open>None\<close>.  Size and modification time play no part in what follows and are left out.
\<close>

datatype item_type = File | Directory

record FileStat =
  basename :: string
  filename :: string
  ftype :: "item_type option"
  mime :: string

text \<open>
  What a listing call may hand back: an array, an object wrapping an array under
  \<open>data\<close>, \<open>items\<close> or \<open>files\<close>, another object (of which the program takes
  the values), or nothing usable.
\<close>

datatype listing =
    Array "FileStat list"
  | WithData "FileStat list"
  | WithItems "FileStat list"
  | WithFiles "FileStat list"
  | OtherObject "FileStat list"
  | NoListing

datatype read_format = TextFormat | BinaryFormat

datatype content = Str string | Buf string

text \<open>The object returned by \<open>createClient(url, {username, password})\<close>.\<close>

record WebDAVClient =
  client_url :: string
  client_username :: string
  client_password :: string

text \<open>
  Every call that leaves the program is recorded: the calls on the webdav library, the
  write of the disk cache and the modal question to the user.
\<close>

datatype call =
    ListDir WebDAVClient string
  | StatPath WebDAVClient string
  | GetFile WebDAVClient string read_format
  | PutFile WebDAVClient string content bool
  | DeleteRemote WebDAVClient string
  | MakeDir WebDAVClient string bool
  | WriteCache string string
  | AskOverwrite string

text \<open>The calls that change the remote tree: create-directory, put and delete.\<close>

fun mutating :: "call \<Rightarrow> bool" where
  "mutating (PutFile _ _ _ _) = True"
| "mutating (DeleteRemote _ _) = True"
| "mutating (MakeDir _ _ _) = True"
| "mutating _ = False"

text \<open>
  The collaborators outside the program, over a world \<open>'w\<close> that they alone know: the
  webdav library (a call returns a result or throws, and moves the world on), the user
  answering the overwrite question (\<open>True\<close> for the button that overwrites), the disk
  cache, the clock, the collation of \<open>localeCompare\<close> in the default locale for
  each value of its option \<open>sensitivity\<close>, and \<open>Uri.parse(text).toString()\<close>.
  Where the program races a call against a timer, the error of the timer is one of the
  errors the call may throw here.
\<close>

datatype sensitivity = SensBase | SensAccent | SensCase | SensVariant

record 'w env =
  lib_getDirectoryContents :: "WebDAVClient \<Rightarrow> string \<Rightarrow> 'w \<Rightarrow> (error + listing) \<times> 'w"
  lib_stat :: "WebDAVClient \<Rightarrow> string \<Rightarrow> 'w \<Rightarrow> (error + FileStat) \<times> 'w"
  lib_getFileContents :: "WebDAVClient \<Rightarrow> string \<Rightarrow> read_format \<Rightarrow> 'w \<Rightarrow> (error + string) \<times> 'w"
  lib_putFileContents :: "WebDAVClient \<Rightarrow> string \<Rightarrow> content \<Rightarrow> bool \<Rightarrow> 'w \<Rightarrow> (error + unit) \<times> 'w"
  lib_deleteFile :: "WebDAVClient \<Rightarrow> string \<Rightarrow> 'w \<Rightarrow> (error + unit) \<times> 'w"
  lib_createDirectory :: "WebDAVClient \<Rightarrow> string \<Rightarrow> bool \<Rightarrow> 'w \<Rightarrow> (error + unit) \<times> 'w"
  ui_confirmOverwrite :: "string \<Rightarrow> 'w \<Rightarrow> bool \<times> 'w"
  fs_writeCache :: "string \<Rightarrow> string \<Rightarrow> 'w \<Rightarrow> (error + unit) \<times> 'w"
  date_now :: "'w \<Rightarrow> int"
  localeCompare :: "sensitivity \<Rightarrow> string \<Rightarrow> string \<Rightarrow> int"
  uri_toString :: "string \<Rightarrow> string"

section \<open>Program state\<close>

record WebDAVConnection =
  client :: WebDAVClient
  connected :: bool
  serverUrl :: string
  basePath :: string
  username :: string
  lastConnected :: int

record WebDAVTreeItem =
  label :: string
  itemType :: item_type
  path :: string
  relativePath :: string
  isFromTopToolbar :: bool

datatype operation = Cut | Copy

record clipboard_entry =
  item :: WebDAVTreeItem
  operation :: operation
  sourcePath :: string
  timestamp :: int

record VirtualFile =
  webdavPath :: string
  fileName :: string
  content :: string
  mtime :: int
  ctime :: int
  isDirty :: bool

text \<open>
  \<open>MyWebDAVClient.connectionPromise\<close> holds the promise of the
  \<open>connectInternal\<close> that is in flight, if any.  Such a promise is either settled,
  with the value it resolved to or the error it was rejected with, or pending: then it
  is the rest of the run of \<open>connectInternal\<close>, given by the values that run
  holds (the client it has created, the cleaned address, the base path and the user
  name) and by the call of the library whose answer it awaits.
\<close>

record attempt =
  att_client :: WebDAVClient
  att_serverUrl :: string
  att_basePath :: string
  att_username :: string

datatype stage =
    RootListing
  | BaseListing
  | CreateBase
  | BaseListingAgain
  | CreateBaseAgain

datatype promise = Settled "error + bool" | Pending attempt stage

text \<open>
  One record for the three objects of the program and the world around them:
  \<open>connection\<close> and \<open>connectionPromise\<close> are the fields of MyWebDAVClient;
  \<open>isConnected\<close>, \<open>webdavClient\<close> (whether the reference is set),
  \<open>currentBasePath\<close> and \<open>clipboard\<close> are fields of
  WebDAVTreeDataProvider; \<open>virtualFiles\<close> and \<open>fsClient\<close> (whether its client
  reference is set) are fields of WebDAVFileSystemProvider.  The tree items kept for
  rendering, the status texts and the save listeners are not part of the model.
\<close>

record 'w state =
  world :: 'w
  calls :: "call list"
  connection :: "WebDAVConnection option"
  connectionPromise :: "promise option"
  isConnected :: bool
  webdavClient :: bool
  currentBasePath :: string
  clipboard :: "clipboard_entry option"
  virtualFiles :: "string \<rightharpoonup> VirtualFile"
  fsClient :: bool

definition invoke :: "('w \<Rightarrow> 'r \<times> 'w) \<Rightarrow> call \<Rightarrow> 'w state \<Rightarrow> 'r \<times> 'w state" where
  "invoke f c s = (case f (world s) of (r, w') \<Rightarrow> (r, s\<lparr>world := w', calls := calls s @ [c]\<rparr>))"

text \<open>The calls issued between two states.\<close>

definition newCalls :: "'w state \<Rightarrow> 'w state \<Rightarrow> call list" where
  "newCalls s s' = drop (length (calls s)) (calls s')"

section \<open>MyWebDAVClient\<close>

text \<open>
  The client class that the providers import from webdavClient.ts.  Every method first
  throws when there is no connection.  The methods read
  \<open>this.connection\<close> again after their awaits; nothing they run in between assigns it,
  so the model reads it once.
\<close>

definition stat :: "'w env \<Rightarrow> string \<Rightarrow> 'w state \<Rightarrow> (error + FileStat) \<times> 'w state" where
  "stat env p s =
     (case connection s of
        None \<Rightarrow> (Inl (Error msg_not_connected), s)
      | Some conn \<Rightarrow> invoke (lib_stat env (client conn) p) (StatPath (client conn) p) s)"

definition getFileContents ::
  "'w env \<Rightarrow> string \<Rightarrow> read_format \<Rightarrow> 'w state \<Rightarrow> (error + string) \<times> 'w state" where
  "getFileContents env p fmt s =
     (case connection s of
        None \<Rightarrow> (Inl (Error msg_not_connected), s)
      | Some conn \<Rightarrow>
          (case invoke (lib_getFileContents env (client conn) p fmt) (GetFile (client conn) p fmt) s of
             (Inr c, s1) \<Rightarrow> (Inr c, s1)
           | (Inl e, s1) \<Rightarrow>
               (if status e = Some 404 then (Inl (Error (msg_file_missing @ p)), s1)
                else if status e = Some 403 then (Inl (Error msg_no_permission), s1)
                else (Inl e, s1))))"

definition createDirectory :: "'w env \<Rightarrow> string \<Rightarrow> 'w state \<Rightarrow> (error + unit) \<times> 'w state" where
  "createDirectory env p s =
     (case connection s of
        None \<Rightarrow> (Inl (Error msg_not_connected), s)
      | Some conn \<Rightarrow> invoke (lib_createDirectory env (client conn) p True) (MakeDir (client conn) p True) s)"

definition deleteFile :: "'w env \<Rightarrow> string \<Rightarrow> 'w state \<Rightarrow> (error + unit) \<times> 'w state" where
  "deleteFile env p s =
     (case connection s of
        None \<Rightarrow> (Inl (Error msg_not_connected), s)
      | Some conn \<Rightarrow> invoke (lib_deleteFile env (client conn) p) (DeleteRemote (client conn) p) s)"

text \<open>
  \<open>getParentPath\<close>: \<open>pre\<close> is the normalised path up to and including its last slash,
  so \<open>lastIndexOf('/')\<close> is \<open>length pre - 1\<close>, or \<open>-1\<close> when \<open>pre\<close> is empty.
\<close>

definition getParentPath :: "string \<Rightarrow> string" where
  "getParentPath filePath =
     (let normalized = collapseSlashes (replaceBackslashes filePath);
          pre = rev (dropWhile (\<lambda>c. c \<noteq> CHR ''/'') (rev normalized))
      in if length pre \<le> 1 then ''/'' else butlast pre)"

definition createFile ::
  "'w env \<Rightarrow> string \<Rightarrow> string \<Rightarrow> bool \<Rightarrow> 'w state \<Rightarrow> (error + unit) \<times> 'w state" where
  "createFile env p text overwrite s =
     (case connection s of
        None \<Rightarrow> (Inl (Error msg_not_connected), s)
      | Some conn \<Rightarrow>
          (let parentPath = getParentPath p;
               ensured =
                 (if parentPath \<noteq> [] \<and> parentPath \<noteq> ''/'' then
                    (case invoke (lib_stat env (client conn) parentPath)
                            (StatPath (client conn) parentPath) s of
                       (Inr _, s1) \<Rightarrow> (Inr (), s1)
                     | (Inl e, s1) \<Rightarrow>
                         if status e = Some 404 then createDirectory env parentPath s1
                         else (Inr (), s1))
                  else (Inr (), s))
           in case ensured of
                (Inl e, s2) \<Rightarrow> (Inl e, s2)
              | (Inr _, s2) \<Rightarrow>
                  invoke (lib_putFileContents env (client conn) p (Str text) overwrite)
                    (PutFile (client conn) p (Str text) overwrite) s2))"

text \<open>
  \<open>getDirectoryContents\<close>: unwrap the listing (\<open>listingItems\<close>), drop the
  entries whose name starts with a dot, and format each entry (\<open>formatEntry\<close>, the
  body of the final \<open>map\<close>; \<open>entryName\<close> is \<open>item.basename || item.filename
  || ''\<close>).  \<open>listingError\<close> is the translation of errors in its \<open>catch\<close>.
\<close>

fun listingItems :: "listing \<Rightarrow> FileStat list" where
  "listingItems (Array xs) = xs"
| "listingItems (WithData xs) = xs"
| "listingItems (WithItems xs) = xs"
| "listingItems (WithFiles xs) = xs"
| "listingItems (OtherObject xs) = xs"
| "listingItems NoListing = []"

definition entryName :: "FileStat \<Rightarrow> string" where
  "entryName i = (if basename i \<noteq> [] then basename i else filename i)"

definition formatEntry :: "FileStat \<Rightarrow> FileStat" where
  "formatEntry i =
     \<lparr>basename = entryName i,
      filename = (if filename i \<noteq> [] then filename i else entryName i),
      ftype = Some (case ftype i of
                      Some t \<Rightarrow> t
                    | None \<Rightarrow> if str_includes (mime i) ''directory'' then Directory else File),
      mime = mime i\<rparr>"

definition listingError :: "string \<Rightarrow> error \<Rightarrow> error" where
  "listingError p e =
     (if str_includes (message e) ''404'' \<or> status e = Some 404 then Error (msg_path_missing @ p)
      else if str_includes (message e) ''401'' \<or> status e = Some 401 then Error msg_auth_reconnect
      else if str_includes (message e) ''timeout'' \<or> str_includes (message e) str_timeout_zh
        then Error msg_request_timeout
      else if code e = Some ''ENOTFOUND'' then Error msg_network_failed
      else e)"

definition getDirectoryContents ::
  "'w env \<Rightarrow> string \<Rightarrow> 'w state \<Rightarrow> (error + FileStat list) \<times> 'w state" where
  "getDirectoryContents env p s =
     (case connection s of
        None \<Rightarrow> (Inl (Error msg_not_connected), s)
      | Some conn \<Rightarrow>
          (case invoke (lib_getDirectoryContents env (client conn) p) (ListDir (client conn) p) s of
             (Inr contents, s1) \<Rightarrow>
               (Inr (map formatEntry
                      (filter (\<lambda>i. \<not> startsWith (entryName i) ''.'') (listingItems contents))), s1)
           | (Inl e, s1) \<Rightarrow> (Inl (listingError p e), s1)))"

text \<open>
  \<open>deleteDirectory\<close> recurses over what the remote store lists, which need not be
  finite in depth: the first argument bounds the depth, and \<open>None\<close> is the run that
  has not returned within it.
\<close>

definition childPath :: "string \<Rightarrow> string \<Rightarrow> string" where
  "childPath p name = (if p = ''/'' then ''/'' @ name else p @ ''/'' @ name)"

fun deleteDirectory ::
      "nat \<Rightarrow> 'w env \<Rightarrow> string \<Rightarrow> 'w state \<Rightarrow> ((error + unit) \<times> 'w state) option"
  and deleteChildren ::
      "nat \<Rightarrow> 'w env \<Rightarrow> string \<Rightarrow> FileStat list \<Rightarrow> 'w state \<Rightarrow> ((error + unit) \<times> 'w state) option"
where
  "deleteDirectory 0 env p s = None"
| "deleteDirectory (Suc n) env p s =
     (case connection s of
        None \<Rightarrow> Some (Inl (Error msg_not_connected), s)
      | Some conn \<Rightarrow>
          (case getDirectoryContents env p s of
             (Inl e, s1) \<Rightarrow> Some (Inl e, s1)
           | (Inr contents, s1) \<Rightarrow>
               (case deleteChildren n env p contents s1 of
                  None \<Rightarrow> None
                | Some (Inl e, s2) \<Rightarrow> Some (Inl e, s2)
                | Some (Inr _, s2) \<Rightarrow>
                    Some (invoke (lib_deleteFile env (client conn) p) (DeleteRemote (client conn) p) s2))))"
| "deleteChildren n env p [] s = Some (Inr (), s)"
| "deleteChildren n env p (i # rest) s =
     (case (if ftype i = Some Directory then deleteDirectory n env (childPath p (basename i)) s
            else Some (deleteFile env (childPath p (basename i)) s)) of
        None \<Rightarrow> None
      | Some (Inl e, s1) \<Rightarrow> Some (Inl e, s1)
      | Some (Inr _, s1) \<Rightarrow> deleteChildren n env p rest s1)"


definition client_disconnect :: "'w state \<Rightarrow> 'w state" where
  "client_disconnect s = s\<lparr>connection := None\<rparr>"

text \<open>
  \<open>testConnectionInternal\<close> probes the root and then the base path, creating the base
  path when the probe answers 404.  The probe of the base path is written twice in the
  source, in the same words; it is \<open>probeBasePath\<close> here, and \<open>createBasePath\<close>
  is the call in it that creates the directory.  \<open>retryBasePath\<close> is the outer
  \<open>catch\<close>: the program repeats the probe of the base path for a server whose
  recorded address (of the session still in place) names jianguoyun.com, when the
  first attempt has thrown.
\<close>

definition createBasePath ::
  "'w env \<Rightarrow> WebDAVClient \<Rightarrow> string \<Rightarrow> 'w state \<Rightarrow> (error + unit) \<times> 'w state" where
  "createBasePath env cl bp s = invoke (lib_createDirectory env cl bp False) (MakeDir cl bp False) s"

definition probeBasePath ::
  "'w env \<Rightarrow> WebDAVClient \<Rightarrow> string \<Rightarrow> 'w state \<Rightarrow> (error + unit) \<times> 'w state" where
  "probeBasePath env cl bp s =
     (if bp \<noteq> [] \<and> bp \<noteq> ''/'' then
        (case invoke (lib_getDirectoryContents env cl bp) (ListDir cl bp) s of
           (Inr _, s1) \<Rightarrow> (Inr (), s1)
         | (Inl e, s1) \<Rightarrow>
             if status e = Some 404 then createBasePath env cl bp s1 else (Inl e, s1))
      else (Inr (), s))"

definition retryBasePath ::
  "'w env \<Rightarrow> WebDAVClient \<Rightarrow> string \<Rightarrow> (error + unit) \<times> 'w state \<Rightarrow> (error + unit) \<times> 'w state" where
  "retryBasePath env cl bp r =
     (case r of
        (Inr _, s2) \<Rightarrow> (Inr (), s2)
      | (Inl e, s2) \<Rightarrow>
          if (case connection s2 of
                None \<Rightarrow> False
              | Some conn \<Rightarrow> str_includes (serverUrl conn) ''jianguoyun.com'')
          then probeBasePath env cl bp s2
          else (Inl e, s2))"

definition testConnectionInternal ::
  "'w env \<Rightarrow> WebDAVClient \<Rightarrow> string \<Rightarrow> 'w state \<Rightarrow> (error + unit) \<times> 'w state" where
  "testConnectionInternal env cl bp s =
     retryBasePath env cl bp
       (case invoke (lib_getDirectoryContents env cl ''/'') (ListDir cl ''/'') s of
          (Inl e, s1) \<Rightarrow> (Inl e, s1)
        | (Inr _, s1) \<Rightarrow> probeBasePath env cl bp s1)"

text \<open>
  \<open>connectInternal\<close>.  \<open>cleanServerUrl\<close> is the cleaning of the address at its
  head, \<open>connectError\<close> the chain of tests in the \<open>catch\<close> around the probe,
  \<open>completeConnect\<close> what follows the probe (that \<open>catch\<close>, and the assignment
  of the session), and \<open>connectFailed\<close> the outer \<open>catch\<close>, which every
  throw reaches.
\<close>

definition connectError :: "error \<Rightarrow> error" where
  "connectError e =
     (if message e = msg_connect_timeout then e
      else if status e = Some 401 \<or> status e = Some 403 then Error msg_connect_auth
      else if status e = Some 404 then Error msg_connect_404
      else if status e = Some 0 then Error msg_network_failed
      else if code e = Some ''ENOTFOUND'' then Error msg_connect_dns
      else if code e = Some ''ECONNREFUSED'' then Error msg_connect_refused
      else if code e = Some ''ETIMEDOUT'' then Error msg_connect_etimedout
      else if code e = Some ''CERT_HAS_EXPIRED'' then Error msg_connect_cert
      else Error (msg_connect_test_failed @
                  (if message e \<noteq> [] then message e else msg_unknown_error)))"

definition cleanServerUrl :: "string \<Rightarrow> string" where
  "cleanServerUrl url =
     (let cleanedServerUrl = trim url
      in if endsWith cleanedServerUrl ''/'' then butlast cleanedServerUrl else cleanedServerUrl)"

definition completeConnect ::
  "'w env \<Rightarrow> attempt \<Rightarrow> (error + unit) \<times> 'w state \<Rightarrow> (error + bool) \<times> 'w state" where
  "completeConnect env att r =
     (case r of
        (Inl e, s1) \<Rightarrow> (Inl (connectError e), s1)
      | (Inr _, s1) \<Rightarrow>
          (Inr True,
           s1\<lparr>connection :=
                Some \<lparr>client = att_client att, connected = True, serverUrl = att_serverUrl att,
                      basePath = att_basePath att, username = att_username att,
                      lastConnected = date_now env (world s1)\<rparr>\<rparr>))"

definition connectFailed :: "(error + bool) \<times> 'w state \<Rightarrow> (error + bool) \<times> 'w state" where
  "connectFailed r =
     (case r of
        (Inl e, s') \<Rightarrow> (Inl e, s'\<lparr>connection := None\<rparr>)
      | (Inr b, s') \<Rightarrow> (Inr b, s'))"

definition connectInternal ::
  "'w env \<Rightarrow> string \<Rightarrow> string \<Rightarrow> string \<Rightarrow> string \<Rightarrow> 'w state \<Rightarrow> (error + bool) \<times> 'w state" where
  "connectInternal env url user password bp s =
     connectFailed
       (if url = [] \<or> user = [] \<or> password = [] then (Inl (Error msg_connect_empty), s)
        else if \<not> startsWith url ''http://'' \<and> \<not> startsWith url ''https://''
          then (Inl (Error msg_connect_scheme), s)
        else
          (let att = \<lparr>att_client = \<lparr>client_url = cleanServerUrl url, client_username = trim user,
                                    client_password = trim password\<rparr>,
                      att_serverUrl = cleanServerUrl url, att_basePath = bp, att_username = user\<rparr>
           in completeConnect env att (testConnectionInternal env (att_client att) bp s)))"

text \<open>
  The rest of a \<open>connectInternal\<close> that is in flight, from the call whose answer it
  awaits: \<open>resumeTest\<close> is the rest of its \<open>testConnectionInternal\<close> (the first
  probe of the base path and the creation of the base path lie inside the outer
  \<open>try\<close>, their repetitions inside its \<open>catch\<close>), and \<open>resumeConnect\<close> the rest
  of the whole.
\<close>

fun resumeTest ::
  "stage \<Rightarrow> 'w env \<Rightarrow> WebDAVClient \<Rightarrow> string \<Rightarrow> 'w state \<Rightarrow> (error + unit) \<times> 'w state" where
  "resumeTest RootListing env cl bp s = testConnectionInternal env cl bp s"
| "resumeTest BaseListing env cl bp s = retryBasePath env cl bp (probeBasePath env cl bp s)"
| "resumeTest CreateBase env cl bp s = retryBasePath env cl bp (createBasePath env cl bp s)"
| "resumeTest BaseListingAgain env cl bp s = probeBasePath env cl bp s"
| "resumeTest CreateBaseAgain env cl bp s = createBasePath env cl bp s"

definition resumeConnect ::
  "'w env \<Rightarrow> attempt \<Rightarrow> stage \<Rightarrow> 'w state \<Rightarrow> (error + bool) \<times> 'w state" where
  "resumeConnect env att st s =
     connectFailed
       (completeConnect env att (resumeTest st env (att_client att) (att_basePath att) s))"

text \<open>
  \<open>connect\<close>.  When a connect is in flight the call awaits the promise of that one
  and returns what it settles to: a settled promise hands over its outcome, a pending
  one runs to its end first.  The call that made the promise resets the field in its
  \<open>finally\<close>, which runs before a call that awaits the same promise resumes.  When
  no connect is in flight the call makes the promise of its own \<open>connectInternal\<close>,
  awaits it, and resets the field.
\<close>

fun awaitPromise ::
  "'w env \<Rightarrow> promise \<Rightarrow> 'w state \<Rightarrow> (error + bool) \<times> 'w state" where
  "awaitPromise env (Settled r) s = (r, s\<lparr>connectionPromise := None\<rparr>)"
| "awaitPromise env (Pending att st) s =
     (case resumeConnect env att st s of (r, s') \<Rightarrow> (r, s'\<lparr>connectionPromise := None\<rparr>))"

definition connect ::
  "'w env \<Rightarrow> string \<Rightarrow> string \<Rightarrow> string \<Rightarrow> string \<Rightarrow> 'w state \<Rightarrow> (error + bool) \<times> 'w state" where
  "connect env url user password bp s =
     (case connectionPromise s of
        Some promise \<Rightarrow> awaitPromise env promise s
      | None \<Rightarrow>
          (case connectInternal env url user password bp s of
             (r, s') \<Rightarrow> (r, s'\<lparr>connectionPromise := None\<rparr>)))"

section \<open>WebDAVTreeDataProvider: listings\<close>

text \<open>
  \<open>getRemoteFiles\<close> of treeDataProvider.ts.  What it receives from
  \<open>MyWebDAVClient.getDirectoryContents\<close> is always an array, so of its tests of the
  shape only the first applies.  \<open>compareEntries\<close> is the comparator handed to
  \<open>sort\<close>, \<open>isDirEntry\<close> its test for a directory, and \<open>toTreeItem\<close> the body
  of the final \<open>map\<close>, without the file type derived from the extension.
\<close>

text \<open>
  \<open>Array.prototype.sort\<close> is stable.  For a comparator that is a total preorder the
  stable sorted arrangement is unique; inserting the elements from the right, each before
  the first element it does not follow, computes it.
\<close>

fun insertBy :: "('a \<Rightarrow> 'a \<Rightarrow> int) \<Rightarrow> 'a \<Rightarrow> 'a list \<Rightarrow> 'a list" where
  "insertBy cmp x [] = [x]"
| "insertBy cmp x (y # ys) = (if cmp x y \<le> 0 then x # y # ys else y # insertBy cmp x ys)"

definition array_sort :: "('a \<Rightarrow> 'a \<Rightarrow> int) \<Rightarrow> 'a list \<Rightarrow> 'a list" where
  "array_sort cmp xs = foldr (insertBy cmp) xs []"

definition isDirEntry :: "FileStat \<Rightarrow> bool" where
  "isDirEntry a = (ftype a = Some Directory \<or> str_includes (mime a) ''directory'')"

definition compareEntries :: "(string \<Rightarrow> string \<Rightarrow> int) \<Rightarrow> FileStat \<Rightarrow> FileStat \<Rightarrow> int" where
  "compareEntries lc a b =
     (if isDirEntry a \<and> \<not> isDirEntry b then - 1
      else if \<not> isDirEntry a \<and> isDirEntry b then 1
      else lc (entryName a) (entryName b))"

definition toTreeItem :: "string \<Rightarrow> string \<Rightarrow> FileStat \<Rightarrow> WebDAVTreeItem" where
  "toTreeItem base p i =
     (let name = (if entryName i \<noteq> [] then entryName i else label_unknown);
          itemPath = childPath p name;
          rel = (if base \<noteq> [] \<and> base \<noteq> ''/'' \<and> startsWith itemPath base then
                   (let r = drop (length base) itemPath;
                        r1 = (if r = [] then ''/'' else r)
                    in if r1 \<noteq> ''/'' \<and> \<not> startsWith r1 ''/'' then ''/'' @ r1 else r1)
                 else itemPath)
      in \<lparr>label = name, itemType = (if isDirEntry i then Directory else File),
          path = itemPath, relativePath = rel, isFromTopToolbar = False\<rparr>)"

definition getRemoteFiles ::
  "'w env \<Rightarrow> string \<Rightarrow> 'w state \<Rightarrow> (error + WebDAVTreeItem list) \<times> 'w state" where
  "getRemoteFiles env p s =
     (if \<not> webdavClient s then (Inl (Error msg_client_uninit), s)
      else
        (case getDirectoryContents env p s of
           (Inl e, s1) \<Rightarrow> (Inl e, s1)
         | (Inr contents, s1) \<Rightarrow>
             (Inr (map (toTreeItem (currentBasePath s1) p)
                     (array_sort (compareEntries (localeCompare env SensBase)) contents)), s1)))"

text \<open>
  The order the listing is meant to have: a directory before a file, and within one
  kind the names in the order of the collation.
\<close>

definition entryLe :: "(string \<Rightarrow> string \<Rightarrow> int) \<Rightarrow> FileStat \<Rightarrow> FileStat \<Rightarrow> bool" where
  "entryLe lc a b =
     ((isDirEntry a \<and> \<not> isDirEntry b) \<or>
      (isDirEntry a = isDirEntry b \<and> lc (entryName a) (entryName b) \<le> 0))"

definition totalPreorder :: "(string \<Rightarrow> string \<Rightarrow> int) \<Rightarrow> bool" where
  "totalPreorder lc \<longleftrightarrow>
     (\<forall>a b. lc a b \<le> 0 \<or> lc b a \<le> 0) \<and> (\<forall>a b c. lc a b \<le> 0 \<and> lc b c \<le> 0 \<longrightarrow> lc a c \<le> 0)"

section \<open>WebDAVTreeDataProvider: connection state and clipboard\<close>

definition disconnect :: "'w state \<Rightarrow> 'w state" where
  "disconnect s =
     (let s1 = s\<lparr>isConnected := False, currentBasePath := ''/''\<rparr>
      in if webdavClient s1 \<and> (case connection s1 of None \<Rightarrow> False | Some conn \<Rightarrow> connected conn)
         then client_disconnect s1 else s1)"

definition refresh :: "'w env \<Rightarrow> 'w state \<Rightarrow> 'w state" where
  "refresh env s =
     (if \<not> isConnected s then s
      else if \<not> webdavClient s then s
      else
        (case getRemoteFiles env (currentBasePath s) s of
           (Inr files, s1) \<Rightarrow> s1
         | (Inl e, s1) \<Rightarrow>
             if str_includes (message e) ''401'' \<or> str_includes (message e) str_auth_failed
             then disconnect s1 else s1))"

definition expiryWindow :: int where
  "expiryWindow = 10 * 60 * 1000"

definition getClipboardStatus :: "'w env \<Rightarrow> 'w state \<Rightarrow> string option \<times> 'w state" where
  "getClipboardStatus env s =
     (case clipboard s of
        None \<Rightarrow> (None, s)
      | Some cb \<Rightarrow>
          if date_now env (world s) - timestamp cb > 10 * 60 * 1000
          then (None, s\<lparr>clipboard := None\<rparr>)
          else (Some ((if operation cb = Copy then action_copy else action_cut) @ '': '' @
                      label (item cb)), s))"

definition updateContext :: "'w env \<Rightarrow> 'w state \<Rightarrow> 'w state" where
  "updateContext env s = snd (getClipboardStatus env s)"

definition cutItem :: "'w env \<Rightarrow> WebDAVTreeItem \<Rightarrow> 'w state \<Rightarrow> 'w state" where
  "cutItem env it s =
     (if \<not> isConnected s then s
      else if \<not> webdavClient s then s
      else
        (case stat env (path it) s of
           (Inr _, s1) \<Rightarrow>
             updateContext env
               (s1\<lparr>clipboard := Some \<lparr>item = it, operation = Cut, sourcePath = path it,
                                      timestamp = date_now env (world s1)\<rparr>\<rparr>)
         | (Inl e, s1) \<Rightarrow>
             if mentions404 e then updateContext env (s1\<lparr>clipboard := None\<rparr>) else s1))"

definition copyItem :: "'w env \<Rightarrow> WebDAVTreeItem \<Rightarrow> 'w state \<Rightarrow> 'w state" where
  "copyItem env it s =
     (if \<not> isConnected s then s
      else updateContext env
             (s\<lparr>clipboard := Some \<lparr>item = it, operation = Copy, sourcePath = path it,
                                   timestamp = date_now env (world s)\<rparr>\<rparr>))"


section \<open>WebDAVTreeDataProvider: copy, move and paste\<close>

text \<open>
  \<open>copyOrMoveFile\<close>: read as text, on failure as binary; a binary read that fails
  with an error mentioning 404 counts, for a cut, as a file already moved and yields the
  empty text.  A buffer is written through the library directly, a text through
  \<open>createFile\<close>.  For a cut the source is deleted last, an error mentioning 404 being
  ignored.  \<open>readSource\<close> and \<open>writeTarget\<close> are the first and the second
  \<open>try\<close> of the function; the flag \<open>isBinary\<close> is the constructor of the content.
\<close>

definition readSource ::
  "'w env \<Rightarrow> string \<Rightarrow> operation \<Rightarrow> 'w state \<Rightarrow> (error + content) \<times> 'w state" where
  "readSource env src op s =
     (case getFileContents env src TextFormat s of
        (Inr c, s1) \<Rightarrow> (Inr (Str c), s1)
      | (Inl e, s1) \<Rightarrow>
          (case getFileContents env src BinaryFormat s1 of
             (Inr c, s2) \<Rightarrow> (Inr (Buf c), s2)
           | (Inl binaryError, s2) \<Rightarrow>
               if mentions404 binaryError then
                 (if op = Cut then (Inr (Str []), s2)
                  else (Inl (Error (msg_copy_source_missing @ src)), s2))
               else
                 (Inl (Error (msg_cannot_read @
                        (if message binaryError \<noteq> [] then message binaryError
                         else msg_unknown_error))), s2)))"

definition writeTarget ::
  "'w env \<Rightarrow> string \<Rightarrow> content \<Rightarrow> 'w state \<Rightarrow> (error + unit) \<times> 'w state" where
  "writeTarget env tgt c s =
     (case c of
        Buf b \<Rightarrow>
          (case connection s of
             None \<Rightarrow> (Inl (Error msg_client_bad_init), s)
           | Some conn \<Rightarrow>
               invoke (lib_putFileContents env (client conn) tgt (Buf b) True)
                 (PutFile (client conn) tgt (Buf b) True) s)
      | Str t \<Rightarrow> createFile env tgt t True s)"

definition copyOrMoveFile ::
  "'w env \<Rightarrow> string \<Rightarrow> string \<Rightarrow> operation \<Rightarrow> 'w state \<Rightarrow> (error + unit) \<times> 'w state" where
  "copyOrMoveFile env src tgt op s =
     (if \<not> webdavClient s then (Inl (Error msg_client_uninit), s)
      else
        (case readSource env src op s of
           (Inl e, s1) \<Rightarrow> (Inl e, s1)
         | (Inr c, s1) \<Rightarrow>
             (case writeTarget env tgt c s1 of
                (Inl writeError, s2) \<Rightarrow> (Inl writeError, s2)
              | (Inr _, s2) \<Rightarrow>
                  if op = Cut then
                    (case deleteFile env src s2 of
                       (Inr _, s3) \<Rightarrow> (Inr (), s3)
                     | (Inl deleteError, s3) \<Rightarrow>
                         if \<not> mentions404 deleteError then (Inl deleteError, s3)
                         else (Inr (), s3))
                  else (Inr (), s2))))"

text \<open>
  \<open>copyOrMoveDirectory\<close>: create the target, list the source, handle the children in
  order and stop at the first that throws; for a cut delete the source directory at the
  end.  The depth is bounded as for \<open>deleteDirectory\<close>.
\<close>

fun copyOrMoveDirectory ::
      "nat \<Rightarrow> 'w env \<Rightarrow> string \<Rightarrow> string \<Rightarrow> operation \<Rightarrow> 'w state \<Rightarrow>
         ((error + unit) \<times> 'w state) option"
  and copyOrMoveChildren ::
      "nat \<Rightarrow> 'w env \<Rightarrow> string \<Rightarrow> string \<Rightarrow> operation \<Rightarrow> FileStat list \<Rightarrow> 'w state \<Rightarrow>
         ((error + unit) \<times> 'w state) option"
where
  "copyOrMoveDirectory 0 env src tgt op s = None"
| "copyOrMoveDirectory (Suc n) env src tgt op s =
     (if \<not> webdavClient s then Some (Inl (Error msg_client_uninit), s)
      else
        (case createDirectory env tgt s of
           (Inl e, s1) \<Rightarrow> Some (Inl e, s1)
         | (Inr _, s1) \<Rightarrow>
             (case getDirectoryContents env src s1 of
                (Inl e, s2) \<Rightarrow> Some (Inl e, s2)
              | (Inr contents, s2) \<Rightarrow>
                  (case copyOrMoveChildren n env src tgt op contents s2 of
                     None \<Rightarrow> None
                   | Some (Inl e, s3) \<Rightarrow> Some (Inl e, s3)
                   | Some (Inr _, s3) \<Rightarrow>
                       if op = Cut then deleteDirectory (Suc n) env src s3
                       else Some (Inr (), s3)))))"
| "copyOrMoveChildren n env src tgt op [] s = Some (Inr (), s)"
| "copyOrMoveChildren n env src tgt op (i # rest) s =
     (case (if ftype i = Some Directory
            then copyOrMoveDirectory n env (src @ ''/'' @ basename i) (tgt @ ''/'' @ basename i) op s
            else Some (copyOrMoveFile env (src @ ''/'' @ basename i) (tgt @ ''/'' @ basename i) op s)) of
        None \<Rightarrow> None
      | Some (Inl e, s1) \<Rightarrow> Some (Inl e, s1)
      | Some (Inr _, s1) \<Rightarrow> copyOrMoveChildren n env src tgt op rest s1)"

text \<open>
  What \<open>pasteItem\<close> tells the user, one constructor for each message (and one for
  the silent return when the user declines to overwrite).  \<open>pasteItem\<close> itself never
  throws.  \<open>pasteTargetPath\<close> and \<open>pasteNewPath\<close> are its computation of
  \<open>targetPath\<close> and \<open>newPath\<close>; \<open>pasteTransfer\<close> is its outer \<open>try\<close> and
  \<open>pasteFailed\<close> the \<open>catch\<close> of that.
\<close>

datatype paste_result =
    NotConnected
  | ClipboardEmpty
  | ClipboardExpired
  | SourceMissing
  | SelfPaste
  | IntoOwnSubtree
  | OverwriteDeclined
  | Pasted
  | PasteFailed error

definition pasteTargetPath :: "string \<Rightarrow> WebDAVTreeItem option \<Rightarrow> string" where
  "pasteTargetPath base targetDirectory =
     (case targetDirectory of
        None \<Rightarrow> base
      | Some t \<Rightarrow>
          if isFromTopToolbar t then base
          else if itemType t = Directory then path t
          else path_dirname (path t))"

definition pasteNewPath :: "string \<Rightarrow> WebDAVTreeItem option \<Rightarrow> string \<Rightarrow> string" where
  "pasteNewPath base targetDirectory src =
     (let targetPath = pasteTargetPath base targetDirectory;
          targetName = path_basename src
      in if targetPath = ''/'' then ''/'' @ targetName else targetPath @ ''/'' @ targetName)"

text \<open>
  The inner \<open>try\<close> of \<open>pasteItem\<close>: is the destination there, does the user agree to
  overwrite it, and the removal of what is there.  Its \<open>catch\<close> lets an error
  mentioning 404 pass, whichever of the calls threw it.
\<close>

datatype destination_check = Proceed | Declined | Thrown error

definition clearDestination ::
  "nat \<Rightarrow> 'w env \<Rightarrow> string \<Rightarrow> string \<Rightarrow> 'w state \<Rightarrow> (destination_check \<times> 'w state) option" where
  "clearDestination fuel env newPath targetName s =
     (case stat env newPath s of
        (Inl e, s1) \<Rightarrow> Some (if mentions404 e then Proceed else Thrown e, s1)
      | (Inr exists, s1) \<Rightarrow>
          (case invoke (ui_confirmOverwrite env targetName) (AskOverwrite targetName) s1 of
             (False, s2) \<Rightarrow> Some (Declined, s2)
           | (True, s2) \<Rightarrow>
               (case (if ftype exists = Some Directory then deleteDirectory fuel env newPath s2
                      else Some (deleteFile env newPath s2)) of
                  None \<Rightarrow> None
                | Some (Inl e, s3) \<Rightarrow> Some (if mentions404 e then Proceed else Thrown e, s3)
                | Some (Inr _, s3) \<Rightarrow> Some (Proceed, s3))))"

definition pasteFailed :: "'w env \<Rightarrow> operation \<Rightarrow> error \<Rightarrow> 'w state \<Rightarrow> paste_result \<times> 'w state" where
  "pasteFailed env op e s =
     (PasteFailed e, if op = Cut then updateContext env (s\<lparr>clipboard := None\<rparr>) else s)"

definition pasteTransfer ::
  "nat \<Rightarrow> 'w env \<Rightarrow> clipboard_entry \<Rightarrow> string \<Rightarrow> 'w state \<Rightarrow> (paste_result \<times> 'w state) option" where
  "pasteTransfer fuel env cb newPath s =
     (case clearDestination fuel env newPath (path_basename (sourcePath cb)) s of
        None \<Rightarrow> None
      | Some (Declined, s1) \<Rightarrow> Some (OverwriteDeclined, s1)
      | Some (Thrown e, s1) \<Rightarrow> Some (pasteFailed env (operation cb) e s1)
      | Some (Proceed, s1) \<Rightarrow>
          (case (if itemType (item cb) = Directory
                 then copyOrMoveDirectory fuel env (sourcePath cb) newPath (operation cb) s1
                 else Some (copyOrMoveFile env (sourcePath cb) newPath (operation cb) s1)) of
             None \<Rightarrow> None
           | Some (Inl e, s2) \<Rightarrow> Some (pasteFailed env (operation cb) e s2)
           | Some (Inr _, s2) \<Rightarrow>
               Some (Pasted,
                     refresh env
                       (updateContext env
                          (if operation cb = Cut then s2\<lparr>clipboard := None\<rparr> else s2)))))"

definition pasteItem ::
  "nat \<Rightarrow> 'w env \<Rightarrow> WebDAVTreeItem option \<Rightarrow> 'w state \<Rightarrow> (paste_result \<times> 'w state) option" where
  "pasteItem fuel env targetDirectory s =
     (if \<not> isConnected s \<or> \<not> webdavClient s then Some (NotConnected, s)
      else
        (case clipboard s of
           None \<Rightarrow> Some (ClipboardEmpty, s)
         | Some cb \<Rightarrow>
             if date_now env (world s) - timestamp cb > 10 * 60 * 1000
             then Some (ClipboardExpired, updateContext env (s\<lparr>clipboard := None\<rparr>))
             else
               (case stat env (sourcePath cb) s of
                  (Inl e, s1) \<Rightarrow> Some (SourceMissing, updateContext env (s1\<lparr>clipboard := None\<rparr>))
                | (Inr _, s1) \<Rightarrow>
                    (let newPath = pasteNewPath (currentBasePath s1) targetDirectory (sourcePath cb)
                     in if sourcePath cb = newPath then Some (SelfPaste, s1)
                        else if itemType (item cb) = Directory \<and>
                                startsWith newPath (sourcePath cb @ ''/'')
                          then Some (IntoOwnSubtree, s1)
                        else pasteTransfer fuel env cb newPath s1))))"

section \<open>WebDAVFileSystemProvider\<close>

text \<open>
  \<open>createVirtualFileUri\<close> and \<open>openFile\<close> of webdavFileSystemProvider.ts.
  A URI is represented by the text handed to \<open>Uri.parse\<close>; the open documents are
  keyed by \<open>toString()\<close> of the parsed URI.  The cache file is named after a hash of
  that key; the write is recorded under the key itself.  \<open>TextEncoder.encode\<close> is the
  identity on UTF-8 bytes.
\<close>

definition createVirtualFileUri :: "string \<Rightarrow> string \<Rightarrow> string" where
  "createVirtualFileUri p name = ''webdav-file://'' @ encodeURIComponent p @ ''/'' @ name"

definition openFile ::
  "'w env \<Rightarrow> string \<Rightarrow> string \<Rightarrow> 'w state \<Rightarrow> (error + string) \<times> 'w state" where
  "openFile env p name s =
     (if \<not> fsClient s then (Inl (Error msg_client_uninit), s)
      else
        (case (case getFileContents env p TextFormat s of
                 (Inr c, s1) \<Rightarrow> (Inr c, s1)
               | (Inl e, s1) \<Rightarrow> if mentions404 e then (Inr [], s1) else (Inl e, s1)) of
           (Inl e, s1) \<Rightarrow> (Inl e, s1)
         | (Inr text, s1) \<Rightarrow>
             (let uri = createVirtualFileUri p name;
                  uriString = uri_toString env uri;
                  now = date_now env (world s1);
                  s2 = s1\<lparr>virtualFiles := (virtualFiles s1)(uriString \<mapsto>
                          \<lparr>webdavPath = p, fileName = name, content = text,
                           mtime = now, ctime = now, isDirty = False\<rparr>)\<rparr>
              in case invoke (fs_writeCache env uriString text) (WriteCache uriString text) s2 of
                   (Inl e, s3) \<Rightarrow> (Inl e, s3)
                 | (Inr _, s3) \<Rightarrow> (Inr uri, s3))))"


section \<open>A small remote store to run the program on\<close>

text \<open>
  A store in memory that answers the calls of the library: the absolute paths that
  exist, each a file with its content or a directory; a clock in milliseconds that
  advances by \<open>tick\<close> with every call; and the paths the server refuses to serve.  A
  missing path is answered as the webdav library does, by an error with status 404 and
  the message of the response; a refused one with status 403.
\<close>

datatype node = FileNode string | DirNode

record store =
  clock :: int
  tick :: int
  nodes :: "(string \<times> node) list"
  denied :: "string list"

definition notFound :: error where
  "notFound = \<lparr>message = ''Invalid response: 404 Not Found'', status = Some 404, code = None\<rparr>"

definition forbidden :: error where
  "forbidden = \<lparr>message = ''Invalid response: 403 Forbidden'', status = Some 403, code = None\<rparr>"

definition elapse :: "store \<Rightarrow> store" where
  "elapse w = w\<lparr>clock := clock w + tick w\<rparr>"

definition statOf :: "string \<Rightarrow> node \<Rightarrow> FileStat" where
  "statOf p n =
     \<lparr>basename = path_basename p, filename = p,
      ftype = Some (case n of FileNode _ \<Rightarrow> File | DirNode \<Rightarrow> Directory), mime = []\<rparr>"

definition store_stat :: "WebDAVClient \<Rightarrow> string \<Rightarrow> store \<Rightarrow> (error + FileStat) \<times> store" where
  "store_stat cl p w =
     (case map_of (nodes w) p of
        None \<Rightarrow> (Inl notFound, elapse w)
      | Some n \<Rightarrow> (Inr (statOf p n), elapse w))"

definition store_list :: "WebDAVClient \<Rightarrow> string \<Rightarrow> store \<Rightarrow> (error + listing) \<times> store" where
  "store_list cl p w =
     (if p = ''/'' \<or> map_of (nodes w) p = Some DirNode
      then (Inr (Array (map (\<lambda>(q, n). statOf q n)
                         (filter (\<lambda>(q, n). q \<noteq> p \<and> path_dirname q = p) (nodes w)))), elapse w)
      else (Inl notFound, elapse w))"

definition store_get ::
  "WebDAVClient \<Rightarrow> string \<Rightarrow> read_format \<Rightarrow> store \<Rightarrow> (error + string) \<times> store" where
  "store_get cl p fmt w =
     (if p \<in> set (denied w) then (Inl forbidden, elapse w)
      else case map_of (nodes w) p of
             Some (FileNode c) \<Rightarrow> (Inr c, elapse w)
           | _ \<Rightarrow> (Inl notFound, elapse w))"

definition store_put ::
  "WebDAVClient \<Rightarrow> string \<Rightarrow> content \<Rightarrow> bool \<Rightarrow> store \<Rightarrow> (error + unit) \<times> store" where
  "store_put cl p c overwrite w =
     (if p \<in> set (denied w) then (Inl forbidden, elapse w)
      else (Inr (),
            elapse (w\<lparr>nodes := (p, FileNode (case c of Str t \<Rightarrow> t | Buf b \<Rightarrow> b)) #
                                 filter (\<lambda>(q, n). q \<noteq> p) (nodes w)\<rparr>)))"

definition store_delete :: "WebDAVClient \<Rightarrow> string \<Rightarrow> store \<Rightarrow> (error + unit) \<times> store" where
  "store_delete cl p w =
     (if map_of (nodes w) p = None then (Inl notFound, elapse w)
      else (Inr (),
            elapse (w\<lparr>nodes := filter (\<lambda>(q, n). q \<noteq> p \<and> \<not> startsWith q (p @ ''/'')) (nodes w)\<rparr>)))"

definition store_mkdir :: "WebDAVClient \<Rightarrow> string \<Rightarrow> bool \<Rightarrow> store \<Rightarrow> (error + unit) \<times> store" where
  "store_mkdir cl p recursive w =
     (Inr (), elapse (if map_of (nodes w) p = None then w\<lparr>nodes := nodes w @ [(p, DirNode)]\<rparr> else w))"

text \<open>
  A collation for ASCII names: byte order, taken after folding the upper-case letters
  for the sensitivities that ignore the case.
\<close>

definition foldCase :: "char \<Rightarrow> nat" where
  "foldCase c = (let n = of_char c in if 65 \<le> n \<and> n \<le> 90 then n + 32 else n)"

fun compareText :: "string \<Rightarrow> string \<Rightarrow> int" where
  "compareText [] [] = 0"
| "compareText [] (y # ys) = - 1"
| "compareText (x # xs) [] = 1"
| "compareText (x # xs) (y # ys) =
     (if foldCase x < foldCase y then - 1
      else if foldCase y < foldCase x then 1
      else compareText xs ys)"

fun compareBytes :: "string \<Rightarrow> string \<Rightarrow> int" where
  "compareBytes [] [] = 0"
| "compareBytes [] (y # ys) = - 1"
| "compareBytes (x # xs) [] = 1"
| "compareBytes (x # xs) (y # ys) =
     (if (of_char x :: nat) < of_char y then - 1
      else if (of_char y :: nat) < of_char x then 1
      else compareBytes xs ys)"

fun collate :: "sensitivity \<Rightarrow> string \<Rightarrow> string \<Rightarrow> int" where
  "collate SensBase = compareText"
| "collate SensAccent = compareText"
| "collate SensCase = compareBytes"
| "collate SensVariant = compareBytes"

text \<open>The environment over the store; \<open>answer\<close> is what the user replies when asked.\<close>

definition storeEnv :: "bool \<Rightarrow> store env" where
  "storeEnv answer =
     \<lparr>lib_getDirectoryContents = store_list,
      lib_stat = store_stat,
      lib_getFileContents = store_get,
      lib_putFileContents = store_put,
      lib_deleteFile = store_delete,
      lib_createDirectory = store_mkdir,
      ui_confirmOverwrite = (\<lambda>name w. (answer, w)),
      fs_writeCache = (\<lambda>key text w. (Inr (), w)),
      date_now = clock,
      localeCompare = collate,
      uri_toString = (\<lambda>text. text)\<rparr>"

definition demoClient :: WebDAVClient where
  "demoClient = \<lparr>client_url = ''https://dav.example.org'', client_username = ''ada'',
                  client_password = ''secret''\<rparr>"

definition demoConnection :: WebDAVConnection where
  "demoConnection =
     \<lparr>client = demoClient, connected = True, serverUrl = ''https://dav.example.org'',
      basePath = ''/notes'', username = ''ada'', lastConnected = 0\<rparr>"

text \<open>A connected program with base path \<open>/notes\<close>, an empty clipboard and no open document.\<close>

definition connectedState :: "store \<Rightarrow> store state" where
  "connectedState w =
     \<lparr>world = w, calls = [], connection = Some demoConnection, connectionPromise = None,
      isConnected = True,
      webdavClient = True, currentBasePath = ''/notes'', clipboard = None,
      virtualFiles = Map.empty, fsClient = True\<rparr>"

definition fileItem :: "string \<Rightarrow> WebDAVTreeItem" where
  "fileItem p = \<lparr>label = path_basename p, itemType = File, path = p, relativePath = p,
                 isFromTopToolbar = False\<rparr>"

definition dirItem :: "string \<Rightarrow> WebDAVTreeItem" where
  "dirItem p = \<lparr>label = path_basename p, itemType = Directory, path = p, relativePath = p,
                isFromTopToolbar = False\<rparr>"

definition notesStore :: store where
  "notesStore =
     \<lparr>clock = 1000, tick = 5000,
      nodes = [(''/notes'', DirNode), (''/notes/archive'', DirNode),
               (''/notes/todo.md'', FileNode ''- buy milk'')],
      denied = []\<rparr>"


section \<open>Vocabulary of the properties\<close>

text \<open>The results with which \<open>pasteItem\<close> refuses a paste before transferring anything.\<close>

fun rejected :: "paste_result \<Rightarrow> bool" where
  "rejected NotConnected = True"
| "rejected ClipboardEmpty = True"
| "rejected ClipboardExpired = True"
| "rejected SourceMissing = True"
| "rejected SelfPaste = True"
| "rejected IntoOwnSubtree = True"
| "rejected OverwriteDeclined = False"
| "rejected Pasted = False"
| "rejected (PasteFailed e) = False"

text \<open>The length of the expiry window of the clipboard, in milliseconds.\<close>

definition expired :: "'w env \<Rightarrow> 'w \<Rightarrow> clipboard_entry \<Rightarrow> bool" where
  "expired env w cb = (date_now env w > timestamp cb + expiryWindow)"

text \<open>The order of a listing as the tree shows it: by kind, then by label.\<close>

definition itemLe :: "(string \<Rightarrow> string \<Rightarrow> int) \<Rightarrow> WebDAVTreeItem \<Rightarrow> WebDAVTreeItem \<Rightarrow> bool" where
  "itemLe lc a b =
     ((itemType a = Directory \<and> itemType b = File) \<or>
      (itemType a = itemType b \<and> lc (label a) (label b) \<le> 0))"

text \<open>
  The collation seen through the case of the ASCII letters: \<open>lowerCase\<close> folds
  the upper-case letters, \<open>foldedCompare\<close> compares the folded names, and a
  collation is case-insensitive when folding does not change what it answers.
\<close>

definition lowerCase :: "string \<Rightarrow> string" where
  "lowerCase s =
     map (\<lambda>c. if 65 \<le> (of_char c :: nat) \<and> (of_char c :: nat) \<le> 90
              then char_of (of_char c + 32 :: nat) else c) s"

definition foldedCompare :: "(string \<Rightarrow> string \<Rightarrow> int) \<Rightarrow> string \<Rightarrow> string \<Rightarrow> int" where
  "foldedCompare lc a b = lc (lowerCase a) (lowerCase b)"

definition caseInsensitive :: "(string \<Rightarrow> string \<Rightarrow> int) \<Rightarrow> bool" where
  "caseInsensitive lc \<longleftrightarrow> (\<forall>a b. lc (lowerCase a) (lowerCase b) = lc a b)"

text \<open>
  Paths by their segments.  \<open>splitPath\<close> cuts a path at its separators,
  \<open>segments\<close> keeps the pieces that are not empty, and \<open>joinPath\<close> writes the
  absolute path with the given segments, the root for none.  A path is canonical when
  it is written as \<open>joinPath\<close> writes it: one separator before every segment and
  nothing else.  A destination lies strictly inside the subtree of a source when the
  segments of the source are a proper prefix of its own.
\<close>

fun splitPath :: "string \<Rightarrow> string list" where
  "splitPath [] = [[]]"
| "splitPath (c # cs) =
     (if c = CHR ''/'' then [] # splitPath cs
      else (case splitPath cs of [] \<Rightarrow> [[c]] | x # xs \<Rightarrow> (c # x) # xs))"

definition segments :: "string \<Rightarrow> string list" where
  "segments p = filter (\<lambda>x. x \<noteq> []) (splitPath p)"

definition joinPath :: "string list \<Rightarrow> string" where
  "joinPath xs = (if xs = [] then ''/'' else concat (map (\<lambda>x. CHR ''/'' # x) xs))"

definition canonicalPath :: "string \<Rightarrow> bool" where
  "canonicalPath p \<longleftrightarrow> p = joinPath (segments p)"

definition insideSubtree :: "string \<Rightarrow> string \<Rightarrow> bool" where
  "insideSubtree dest src \<longleftrightarrow> strict_prefix (segments src) (segments dest)"

section \<open>Scenarios on the small store\<close>

text \<open>The same program state with the clock of the store showing \<open>t\<close>.\<close>

definition atTime :: "int \<Rightarrow> store state \<Rightarrow> store state" where
  "atTime t s = s\<lparr>world := (world s)\<lparr>clock := t\<rparr>\<rparr>"

definition cutTodo :: "store state" where
  "cutTodo = cutItem (storeEnv True) (fileItem ''/notes/todo.md'') (connectedState notesStore)"

definition cutNotes :: "store state" where
  "cutNotes = cutItem (storeEnv True) (dirItem ''/notes'') (connectedState notesStore)"

definition copiedTodo :: "store state" where
  "copiedTodo = copyItem (storeEnv True) (fileItem ''/notes/todo.md'') (connectedState notesStore)"

text \<open>
  A directory \<open>/d\<close> with two files, of which the server refuses to serve the second,
  and a directory \<open>/t\<close> to move it into.
\<close>

definition guardedStore :: store where
  "guardedStore =
     \<lparr>clock = 1000, tick = 5000,
      nodes = [(''/d'', DirNode), (''/d/a.txt'', FileNode ''A''), (''/d/b.txt'', FileNode ''B''),
               (''/t'', DirNode)],
      denied = [''/d/b.txt'']\<rparr>"

definition cutGuarded :: "store state" where
  "cutGuarded = cutItem (storeEnv True) (dirItem ''/d'') (connectedState guardedStore)"

definition listingStore :: store where
  "listingStore =
     \<lparr>clock = 1000, tick = 5000,
      nodes = [(''/b.txt'', FileNode []), (''/A'', DirNode), (''/a.txt'', FileNode [])],
      denied = []\<rparr>"

text \<open>
  The document \<open>/notes/todo.md\<close> opened and then edited in the editor, which leaves
  the tracked document dirty with the new content.
\<close>

definition todoUri :: string where
  "todoUri = createVirtualFileUri ''/notes/todo.md'' ''todo.md''"

definition openedTodo :: "store state" where
  "openedTodo = snd (openFile (storeEnv True) ''/notes/todo.md'' ''todo.md'' (connectedState notesStore))"

definition editedTodo :: "store state" where
  "editedTodo =
     openedTodo\<lparr>virtualFiles := (virtualFiles openedTodo)(todoUri \<mapsto>
        \<lparr>webdavPath = ''/notes/todo.md'', fileName = ''todo.md'', content = ''- buy milk and bread'',
         mtime = 9000, ctime = 6000, isDirty = True\<rparr>)\<rparr>"

text \<open>
  \<open>/notes/todo.md\<close> copied at clock 1000, seen again one millisecond after the expiry
  window has passed, with the program still connected and after a disconnect; and seen
  ten seconds before the window closes.
\<close>

definition expiredCopy :: "store state" where
  "expiredCopy = atTime (1000 + expiryWindow + 1) copiedTodo"

definition copiedOffline :: "store state" where
  "copiedOffline = atTime (1000 + expiryWindow + 1) (disconnect copiedTodo)"



text \<open>
  A store whose root holds a directory \<open>docs\<close> and a file, the program connected
  with the root as its base path, and in its clipboard the placeholder that the tree
  shows for an empty base directory, copied while the root was still empty: an entry
  whose source is the root itself.
\<close>

definition rootStore :: store where
  "rootStore =
     \<lparr>clock = 1000, tick = 5000,
      nodes = [(''/'', DirNode), (''/docs'', DirNode), (''/readme.md'', FileNode ''hello'')],
      denied = []\<rparr>"

definition emptyPlaceholder :: "string \<Rightarrow> WebDAVTreeItem" where
  "emptyPlaceholder base =
     \<lparr>label = label_empty_directory, itemType = Directory, path = base, relativePath = ''/'',
      isFromTopToolbar = False\<rparr>"

definition rootState :: "store \<Rightarrow> store state" where
  "rootState w =
     (connectedState w)\<lparr>connection := Some (demoConnection\<lparr>basePath := ''/''\<rparr>),
                        currentBasePath := ''/''\<rparr>"

definition copiedRoot :: "store state" where
  "copiedRoot = copyItem (storeEnv True) (emptyPlaceholder ''/'') (rootState rootStore)"

text \<open>
  A program in which a connect for another user is in flight, awaiting the listing of
  the root.
\<close>

definition otherAttempt :: attempt where
  "otherAttempt =
     \<lparr>att_client = \<lparr>client_url = ''https://dav.example.org'', client_username = ''bob'',
                     client_password = ''hunter2''\<rparr>,
      att_serverUrl = ''https://dav.example.org'', att_basePath = ''/notes'',
      att_username = ''bob''\<rparr>"

definition connectInFlight :: "store state" where
  "connectInFlight =
     (connectedState notesStore)\<lparr>connectionPromise := Some (Pending otherAttempt RootListing)\<rparr>"

section \<open>Properties of PathUtils\<close>

lemma collapseSlashes_eq_Nil [simp]: "collapseSlashes s = [] \<longleftrightarrow> s = []"
  by (induction s rule: collapseSlashes.induct) auto

lemma hd_collapseSlashes: "hd (collapseSlashes s) = hd s"
  by (induction s rule: collapseSlashes.induct) auto

lemma collapseSlashes_no_adj: "\<not> adjSlash (collapseSlashes s)"
proof (induction s rule: collapseSlashes.induct)
  case (3 c d cs)
  then show ?case
    by (cases "collapseSlashes (d # cs)")
      (use hd_collapseSlashes [of "d # cs"] in \<open>auto split: if_splits\<close>)
qed auto

lemma collapseSlashes_id: "\<not> adjSlash s \<Longrightarrow> collapseSlashes s = s"
  by (induction s rule: collapseSlashes.induct) auto

lemma adjSlash_tl: "\<not> adjSlash s \<Longrightarrow> \<not> adjSlash (tl s)"
  by (induction s rule: adjSlash.induct) auto

lemma adjSlash_butlast: "\<not> adjSlash s \<Longrightarrow> \<not> adjSlash (butlast s)"
  by (induction s rule: adjSlash.induct) (auto split: if_splits)

lemma adjSlash_stripLeading: "\<not> adjSlash s \<Longrightarrow> \<not> adjSlash (stripLeadingSlash s)"
  using adjSlash_tl [of s] by (auto simp: stripLeadingSlash_def split: list.splits)

lemma adjSlash_stripTrailing: "\<not> adjSlash s \<Longrightarrow> \<not> adjSlash (stripTrailingSlash s)"
  using adjSlash_butlast [of s] by (auto simp: stripTrailingSlash_def)

lemma cleanPath_no_adj: "\<not> adjSlash (cleanPath p)"
  unfolding cleanPath_def
  by (intro adjSlash_stripTrailing adjSlash_stripLeading collapseSlashes_no_adj)

lemma hd_stripLeading:
  "\<not> adjSlash s \<Longrightarrow> stripLeadingSlash s \<noteq> [] \<Longrightarrow> hd (stripLeadingSlash s) \<noteq> CHR ''/''"
  by (cases s rule: adjSlash.cases) (auto simp: stripLeadingSlash_def)

lemma adjSlash_last2:
  "\<not> adjSlash s \<Longrightarrow> last s = CHR ''/'' \<Longrightarrow> butlast s \<noteq> [] \<Longrightarrow> last (butlast s) \<noteq> CHR ''/''"
  by (induction s rule: adjSlash.induct) (auto split: if_splits)

lemma last_stripTrailing:
  "\<not> adjSlash s \<Longrightarrow> stripTrailingSlash s \<noteq> [] \<Longrightarrow> last (stripTrailingSlash s) \<noteq> CHR ''/''"
  using adjSlash_last2 [of s] by (auto simp: stripTrailingSlash_def)

lemma hd_butlast: "butlast s \<noteq> [] \<Longrightarrow> hd (butlast s) = hd s"
  by (cases s) auto

lemma hd_stripTrailing: "stripTrailingSlash s \<noteq> [] \<Longrightarrow> hd (stripTrailingSlash s) = hd s"
  by (auto simp: stripTrailingSlash_def hd_butlast)

lemma cleanPath_hd:
  assumes ne: "cleanPath p \<noteq> []"
  shows "hd (cleanPath p) \<noteq> CHR ''/''"
proof -
  let ?u = "stripLeadingSlash (collapseSlashes (replaceBackslashes p))"
  from ne have st: "stripTrailingSlash ?u \<noteq> []" by (simp add: cleanPath_def)
  then have "hd (stripTrailingSlash ?u) = hd ?u" by (rule hd_stripTrailing)
  moreover from st have "?u \<noteq> []" by (auto simp: stripTrailingSlash_def)
  then have "hd ?u \<noteq> CHR ''/''"
    using hd_stripLeading [OF collapseSlashes_no_adj] by blast
  ultimately show ?thesis by (simp add: cleanPath_def)
qed

lemma cleanPath_last: "cleanPath p \<noteq> [] \<Longrightarrow> last (cleanPath p) \<noteq> CHR ''/''"
  unfolding cleanPath_def
  by (rule last_stripTrailing) (intro adjSlash_stripLeading collapseSlashes_no_adj)

lemma cleanPath_not_slash: "cleanPath p \<noteq> ''/''"
  using cleanPath_hd [of p] by auto

lemma cleanPath_no_backslash: "CHR 0x5C \<notin> set (cleanPath p)"
proof -
  have a: "CHR 0x5C \<notin> set (replaceBackslashes p)" by (auto simp: replaceBackslashes_def)
  have b: "set (collapseSlashes s) \<subseteq> set s" for s
    by (induction s rule: collapseSlashes.induct) auto
  have c: "set (stripLeadingSlash s) \<subseteq> set s" for s
    by (auto simp: stripLeadingSlash_def split: list.splits if_splits)
  have d: "set (stripTrailingSlash s) \<subseteq> set s" for s
    by (auto simp: stripTrailingSlash_def dest: in_set_butlastD)
  show ?thesis unfolding cleanPath_def using a b c d by blast
qed

lemma cleanPath_isClean: "isClean (cleanPath p)"
  using cleanPath_hd [of p] cleanPath_last [of p]
  by (auto simp: isClean_def cleanPath_no_backslash cleanPath_no_adj)

lemma cleanPath_id:
  assumes c: "isClean s"
  shows "cleanPath s = s"
proof -
  from c have "replaceBackslashes s = s"
    by (auto simp: replaceBackslashes_def isClean_def intro: map_idI)
  moreover have "collapseSlashes s = s" using c by (simp add: collapseSlashes_id isClean_def)
  moreover have "stripLeadingSlash s = s"
    using c by (cases s) (auto simp: stripLeadingSlash_def isClean_def)
  moreover have "stripTrailingSlash s = s" using c by (auto simp: stripTrailingSlash_def isClean_def)
  ultimately show ?thesis by (simp add: cleanPath_def)
qed

lemma cleanPath_slash_clean:
  assumes c: "isClean r" and ne: "r \<noteq> []"
  shows "cleanPath (''/'' @ r) = r"
proof -
  from c have rb: "replaceBackslashes r = r"
    by (auto simp: replaceBackslashes_def isClean_def intro: map_idI)
  from c have cs: "collapseSlashes r = r" by (simp add: collapseSlashes_id isClean_def)
  from c ne have hd: "hd r \<noteq> CHR ''/''" and la: "last r \<noteq> CHR ''/''" by (auto simp: isClean_def)
  obtain x xs where r: "r = x # xs" using ne by (cases r) auto
  have "replaceBackslashes (''/'' @ r) = CHR ''/'' # r"
    using rb by (simp add: replaceBackslashes_def)
  moreover have "collapseSlashes (CHR ''/'' # r) = CHR ''/'' # r"
    using hd cs by (simp add: r)
  moreover have "stripLeadingSlash (CHR ''/'' # r) = r" by (simp add: stripLeadingSlash_def)
  moreover have "stripTrailingSlash r = r" using la by (simp add: stripTrailingSlash_def)
  ultimately show ?thesis by (simp add: cleanPath_def)
qed

lemma isClean_drop:
  assumes "isClean (B @ ''/'' @ r)"
  shows "isClean r"
proof -
  have nb: "CHR 0x5C \<notin> set r" using assms by (auto simp: isClean_def)
  have adj: "\<not> adjSlash (ys @ zs) \<Longrightarrow> \<not> adjSlash zs" for ys zs
    by (induction ys) (use adjSlash_tl in force)+
  have na: "\<not> adjSlash (CHR ''/'' # r)"
    using assms adj [of B "CHR ''/'' # r"] by (simp add: isClean_def)
  then have na': "\<not> adjSlash r" using adjSlash_tl by force
  have "hd r \<noteq> CHR ''/''" if "r \<noteq> []" using na that by (cases r) auto
  moreover have "last r \<noteq> CHR ''/''" if "r \<noteq> []" using assms that by (auto simp: isClean_def)
  ultimately show ?thesis using nb na' by (auto simp: isClean_def)
qed

lemma rel_cases:
  "getRelativePathFromBase a b =
     (if cleanPath b = [] then cleanPath a
      else if prefix (cleanPath b @ ''/'') (cleanPath a)
        then drop (length (cleanPath b) + 1) (cleanPath a)
      else if cleanPath a = cleanPath b then [] else cleanPath a)"
  by (simp add: getRelativePathFromBase_def startsWith_def Let_def cleanPath_not_slash)

lemma rel_prefix:
  assumes "cleanPath b \<noteq> []" "prefix (cleanPath b @ ''/'') (cleanPath a)"
  shows "cleanPath a = cleanPath b @ ''/'' @ getRelativePathFromBase a b"
    and "getRelativePathFromBase a b \<noteq> []"
    and "isClean (getRelativePathFromBase a b)"
proof -
  from assms(2) obtain r where A: "cleanPath a = (cleanPath b @ ''/'') @ r"
    by (auto simp: prefix_def)
  then have r: "getRelativePathFromBase a b = r" using assms by (simp add: rel_cases)
  show 1: "cleanPath a = cleanPath b @ ''/'' @ getRelativePathFromBase a b" using A r by simp
  have "last (cleanPath a) \<noteq> CHR ''/''" using cleanPath_last [of a] A by auto
  then show "getRelativePathFromBase a b \<noteq> []" using A r by auto
  show "isClean (getRelativePathFromBase a b)"
    using isClean_drop [of "cleanPath b" "getRelativePathFromBase a b"] 1 cleanPath_isClean [of a]
    by simp
qed

lemma rel_isClean: "isClean (getRelativePathFromBase a b)"
  using rel_prefix(3) [of b a] cleanPath_isClean [of a]
  by (auto simp: rel_cases isClean_def)

lemma rel_empty_iff:
  "getRelativePathFromBase a b = [] \<longleftrightarrow> cleanPath a = [] \<or> cleanPath a = cleanPath b"
  using rel_prefix(2) [of b a] by (auto simp: rel_cases)

lemma rel_of_slash:
  assumes "isClean r" "r \<noteq> []"
  shows "getRelativePathFromBase a (''/'' @ r) = r \<longleftrightarrow> cleanPath a = r @ ''/'' @ r"
proof -
  have cn: "cleanPath (''/'' @ r) = r" by (rule cleanPath_slash_clean [OF assms])
  show ?thesis
  proof (cases "prefix (r @ ''/'') (cleanPath a)")
    case True
    then obtain x where x: "cleanPath a = (r @ ''/'') @ x" by (auto simp: prefix_def)
    have "getRelativePathFromBase a (''/'' @ r) = x"
      unfolding rel_cases [of a "''/'' @ r"] cn using assms(2) x by simp
    then show ?thesis using x by auto
  next
    case False
    then have ne: "cleanPath a \<noteq> r @ ''/'' @ r" by (auto simp: prefix_def)
    have "getRelativePathFromBase a (''/'' @ r) \<noteq> r"
      unfolding rel_cases [of a "''/'' @ r"] cn using assms(2) False by auto
    then show ?thesis using ne by simp
  qed
qed

lemma roundtrip_nonempty:
  assumes "getRelativePathFromBase a b \<noteq> []"
  shows "getRelativePathFromBase a (normalizeWebDAVPath (getRelativePathFromBase a b) b) =
           getRelativePathFromBase a b
     \<longleftrightarrow> cleanPath a = getRelativePathFromBase a b @ ''/'' @ getRelativePathFromBase a b"
proof -
  let ?r = "getRelativePathFromBase a b"
  have cr: "cleanPath ?r = ?r" by (rule cleanPath_id [OF rel_isClean])
  then have n: "normalizeWebDAVPath ?r b = ''/'' @ ?r"
    using assms by (simp add: normalizeWebDAVPath_def)
  show ?thesis unfolding n by (rule rel_of_slash [OF rel_isClean assms])
qed

text \<open>
  C2 (as the code has it).  \<open>getRelativePathFromBase\<close> compares the two paths after
  cleaning them (backslashes turned into slashes, runs of slashes collapsed, one slash
  removed at either end).  It returns the empty string, not \<open>/\<close>, when the cleaned
  paths are equal, as they are when the absolute path is the base path; when the cleaned
  absolute path starts with the cleaned base path and a separator it returns the
  remainder, which is not empty and has no leading separator; and in every other case,
  also when the base path is the root, it returns the cleaned absolute path, which never
  starts with a separator.
\<close>

theorem getRelativePathFromBase_result:
  "(cleanPath a = cleanPath b \<longrightarrow> getRelativePathFromBase a b = []) \<and>
   (cleanPath b \<noteq> [] \<and> startsWith (cleanPath a) (cleanPath b @ ''/'') \<longrightarrow>
      cleanPath a = cleanPath b @ ''/'' @ getRelativePathFromBase a b \<and>
      getRelativePathFromBase a b \<noteq> [] \<and>
      \<not> startsWith (getRelativePathFromBase a b) ''/'') \<and>
   ((cleanPath b = [] \<or> \<not> startsWith (cleanPath a) (cleanPath b @ ''/'')) \<and>
    cleanPath a \<noteq> cleanPath b \<longrightarrow>
      getRelativePathFromBase a b = cleanPath a) \<and>
   \<not> startsWith (cleanPath a) ''/''"
proof -
  have 1: "getRelativePathFromBase a b = []" if "cleanPath a = cleanPath b"
    using that by (simp add: rel_empty_iff)
  have noslash: "\<not> startsWith r ''/''" if "isClean r" for r
    using that by (cases r) (auto simp: startsWith_def isClean_def)
  have 2: "cleanPath a = cleanPath b @ ''/'' @ getRelativePathFromBase a b \<and>
      getRelativePathFromBase a b \<noteq> [] \<and> \<not> startsWith (getRelativePathFromBase a b) ''/''"
    if "cleanPath b \<noteq> []" "startsWith (cleanPath a) (cleanPath b @ ''/'')"
    using rel_prefix [of b a] that noslash [OF rel_isClean] by (simp add: startsWith_def)
  have 3: "getRelativePathFromBase a b = cleanPath a"
    if "(cleanPath b = [] \<or> \<not> startsWith (cleanPath a) (cleanPath b @ ''/'')) \<and>
        cleanPath a \<noteq> cleanPath b"
    using that by (auto simp: rel_cases startsWith_def)
  show ?thesis using 1 2 3 noslash [OF cleanPath_isClean] by blast
qed

theorem getRelativePathFromBase_witness:
  "cleanPath ''/notes/'' = cleanPath (CHR 0x5C # ''notes'') \<and>
   getRelativePathFromBase ''/notes/'' (CHR 0x5C # ''notes'') = [] \<and>
   cleanPath ''/notes'' \<noteq> [] \<and>
   startsWith (cleanPath ''/notes/todo.md'') (cleanPath ''/notes'' @ ''/'') \<and>
   getRelativePathFromBase ''/notes/todo.md'' ''/notes'' = ''todo.md'' \<and>
   \<not> startsWith (cleanPath ''/other/x'') (cleanPath ''/notes'' @ ''/'') \<and>
   cleanPath ''/other/x'' \<noteq> cleanPath ''/notes'' \<and>
   getRelativePathFromBase ''/other/x'' ''/notes'' = ''other/x''"
proof -
  have c1: "cleanPath ''/notes/'' = ''notes''" by code_simp
  have c2: "cleanPath (CHR 0x5C # ''notes'') = ''notes''" by code_simp
  have c3: "cleanPath ''/notes'' = ''notes''" by code_simp
  have c4: "cleanPath ''/notes/todo.md'' = ''notes/todo.md''" by code_simp
  have c5: "cleanPath ''/other/x'' = ''other/x''" by code_simp
  note w1 = getRelativePathFromBase_result [of "''/notes/''" "(CHR 0x5C # ''notes'')"]
  note w2 = getRelativePathFromBase_result [of "''/notes/todo.md''" "''/notes''"]
  note w3 = getRelativePathFromBase_result [of "''/other/x''" "''/notes''"]
  show ?thesis using w1 w2 w3 unfolding c1 c2 c3 c4 c5 by (simp add: startsWith_def)
qed

text \<open>
  Against C2 as the specification words it: for equal paths the result is empty rather
  than \<open>/\<close>, the remainder comes without the leading separator, and a path outside
  the base loses its leading separator instead of coming back unchanged.
\<close>

theorem getRelativePathFromBase_counterexample:
  "getRelativePathFromBase ''/notes'' ''/notes'' = [] \<and>
   getRelativePathFromBase ''/notes'' ''/notes'' \<noteq> ''/'' \<and>
   getRelativePathFromBase ''/notes/todo.md'' ''/notes'' = ''todo.md'' \<and>
   getRelativePathFromBase ''/notes/todo.md'' ''/notes'' \<noteq> ''/todo.md'' \<and>
   getRelativePathFromBase ''/other/x'' ''/notes'' = ''other/x'' \<and>
   getRelativePathFromBase ''/other/x'' ''/notes'' \<noteq> ''/other/x''"
  by (simp add: getRelativePathFromBase_def cleanPath_def replaceBackslashes_def
      stripLeadingSlash_def stripTrailingSlash_def startsWith_def)

text \<open>
  C6 (as the code has it).  The round trip
  \<open>relativeTo(a, normalize(relativeTo(a, b), b)) = relativeTo(a, b)\<close> holds exactly
  when the cleaned absolute path is empty, or is the cleaned base path, or is the cleaned
  base path nested once in itself; for every other pair it fails.
\<close>

theorem roundtrip_iff:
  "getRelativePathFromBase a (normalizeWebDAVPath (getRelativePathFromBase a b) b) =
     getRelativePathFromBase a b
   \<longleftrightarrow> cleanPath a = [] \<or> cleanPath a = cleanPath b \<or>
       cleanPath a = cleanPath b @ ''/'' @ cleanPath b"
proof (cases "getRelativePathFromBase a b = []")
  case True
  then show ?thesis using rel_empty_iff [of a b] by (auto simp: normalizeWebDAVPath_def)
next
  case False
  let ?r = "getRelativePathFromBase a b"
  have ne: "cleanPath a \<noteq> []" "cleanPath a \<noteq> cleanPath b"
    using False rel_empty_iff [of a b] by auto
  have "cleanPath a = ?r @ ''/'' @ ?r \<longleftrightarrow> cleanPath a = cleanPath b @ ''/'' @ cleanPath b"
  proof (cases "cleanPath b \<noteq> [] \<and> prefix (cleanPath b @ ''/'') (cleanPath a)")
    case True
    then have A: "cleanPath a = cleanPath b @ ''/'' @ ?r" using rel_prefix(1) by blast
    show ?thesis
    proof
      assume "cleanPath a = ?r @ ''/'' @ ?r"
      with A have "cleanPath b @ ''/'' @ ?r = ?r @ ''/'' @ ?r" by simp
      then have "cleanPath b = ?r" by simp
      with A show "cleanPath a = cleanPath b @ ''/'' @ cleanPath b" by simp
    next
      assume "cleanPath a = cleanPath b @ ''/'' @ cleanPath b"
      with A have "?r = cleanPath b" by simp
      with A show "cleanPath a = ?r @ ''/'' @ ?r" by simp
    qed
  next
    case F: False
    then have r: "?r = cleanPath a" using ne by (auto simp: rel_cases)
    have "cleanPath a \<noteq> cleanPath b @ ''/'' @ cleanPath b"
      using F ne cleanPath_not_slash [of a] by (cases "cleanPath b = []") (auto simp: prefix_def)
    moreover have "cleanPath a \<noteq> cleanPath a @ ''/'' @ cleanPath a" by simp
    ultimately show ?thesis using r by simp
  qed
  then show ?thesis using roundtrip_nonempty [OF False] ne by simp
qed

theorem roundtrip_witness:
  "cleanPath ''/notes'' = cleanPath ''/notes'' \<and>
   getRelativePathFromBase ''/notes''
     (normalizeWebDAVPath (getRelativePathFromBase ''/notes'' ''/notes'') ''/notes'') =
   getRelativePathFromBase ''/notes'' ''/notes''"
  using roundtrip_iff [of "''/notes''" "''/notes''"] by simp

text \<open>
  Against C6 as the specification words it: for \<open>/notes/todo.md\<close> under the base path
  \<open>/notes\<close> the relative path is \<open>todo.md\<close>, its normalisation is \<open>/todo.md\<close>, and
  relative to that the absolute path is \<open>notes/todo.md\<close>.
\<close>

theorem roundtrip_counterexample:
  "getRelativePathFromBase ''/notes/todo.md'' ''/notes'' = ''todo.md'' \<and>
   normalizeWebDAVPath ''todo.md'' ''/notes'' = ''/todo.md'' \<and>
   getRelativePathFromBase ''/notes/todo.md''
     (normalizeWebDAVPath (getRelativePathFromBase ''/notes/todo.md'' ''/notes'') ''/notes'') =
   ''notes/todo.md'' \<and>
   getRelativePathFromBase ''/notes/todo.md''
     (normalizeWebDAVPath (getRelativePathFromBase ''/notes/todo.md'' ''/notes'') ''/notes'') \<noteq>
   getRelativePathFromBase ''/notes/todo.md'' ''/notes''"
  by (simp add: getRelativePathFromBase_def normalizeWebDAVPath_def cleanPath_def
      replaceBackslashes_def stripLeadingSlash_def stripTrailingSlash_def startsWith_def)

section \<open>Frames of the operations\<close>

text \<open>
  What the calls on the client leave alone.  A call through \<open>invoke\<close> adds itself to
  the record of calls and moves the world on; nothing else in the state changes.
\<close>

lemma invoke_calls: "invoke f c s = (r, s') \<Longrightarrow> calls s' = calls s @ [c]"
  by (auto simp: invoke_def split: prod.splits)


lemma invoke_provider:
  "invoke f c s = (r, s') \<Longrightarrow>
     currentBasePath s' = currentBasePath s \<and> isConnected s' = isConnected s \<and>
     webdavClient s' = webdavClient s \<and> connection s' = connection s"
  by (auto simp: invoke_def split: prod.splits)

lemma stat_calls:
  "stat env p s = (r, s') \<Longrightarrow> \<exists>cs. calls s' = calls s @ cs \<and> filter mutating cs = []"
  by (auto simp: stat_def split: option.splits dest!: invoke_calls)


lemma stat_provider:
  "stat env p s = (r, s') \<Longrightarrow>
     currentBasePath s' = currentBasePath s \<and> isConnected s' = isConnected s \<and>
     webdavClient s' = webdavClient s \<and> connection s' = connection s"
  by (auto simp: stat_def split: option.splits dest: invoke_provider)

lemma updateContext_calls: "calls (updateContext env s) = calls s"
  by (simp add: updateContext_def getClipboardStatus_def split: option.splits)

lemma updateContext_None: "clipboard s = None \<Longrightarrow> updateContext env s = s"
  by (simp add: updateContext_def getClipboardStatus_def)



















lemma expired_iff: "expired env w cb \<longleftrightarrow> date_now env w - timestamp cb > 10 * 60 * 1000"
  by (auto simp: expired_def expiryWindow_def)




section \<open>Paste: rejections, expiry and the clipboard\<close>

lemma splitPath_not_Nil: "splitPath p \<noteq> []"
  by (induction p) (auto split: list.splits)

lemma splitPath_no_slash: "x \<in> set (splitPath p) \<Longrightarrow> CHR ''/'' \<notin> set x"
  by (induction p arbitrary: x) (auto split: list.splits if_splits)

lemma splitPath_snoc_slash: "splitPath (p @ ''/'') = splitPath p @ [[]]"
proof (induction p)
  case Nil
  then show ?case by simp
next
  case (Cons c p)
  then show ?case using splitPath_not_Nil [of p] by (cases "splitPath p") auto
qed

lemma segments_snoc_slash: "segments (p @ ''/'') = segments p"
  by (simp add: segments_def splitPath_snoc_slash)

lemma segments_elem: "x \<in> set (segments p) \<Longrightarrow> x \<noteq> [] \<and> CHR ''/'' \<notin> set x"
  by (auto simp: segments_def dest: splitPath_no_slash)

lemma segments_root: "segments ''/'' = []"
  by (simp add: segments_def)

lemma joinPath_append:
  "xs \<noteq> [] \<Longrightarrow> ys \<noteq> [] \<Longrightarrow> joinPath (xs @ ys) = joinPath xs @ joinPath ys"
  by (simp add: joinPath_def)

lemma joinPath_Cons: "joinPath (y # ys) = CHR ''/'' # y @ concat (map (\<lambda>x. CHR ''/'' # x) ys)"
  by (simp add: joinPath_def)

lemma canonical_segments: "canonicalPath p \<Longrightarrow> p \<noteq> ''/'' \<Longrightarrow> segments p \<noteq> []"
  by (auto simp: canonicalPath_def joinPath_def)

lemma inside_startsWith:
  assumes cs: "canonicalPath src" and nr: "src \<noteq> ''/''" and cd: "canonicalPath dest"
    and ins: "insideSubtree dest src"
  shows "startsWith dest (src @ ''/'')"
proof -
  have ne: "segments src \<noteq> []" by (rule canonical_segments [OF cs nr])
  from ins obtain y ys where ds: "segments dest = segments src @ y # ys"
    by (auto simp: insideSubtree_def strict_prefix_def prefix_def neq_Nil_conv)
  have "dest = joinPath (segments src @ y # ys)" using cd ds by (simp add: canonicalPath_def)
  also have "\<dots> = joinPath (segments src) @ joinPath (y # ys)"
    by (rule joinPath_append [OF ne]) simp
  also have "joinPath (segments src) = src" using cs by (simp add: canonicalPath_def)
  finally show ?thesis by (simp add: startsWith_def joinPath_Cons)
qed

lemma canonical_shape:
  assumes c: "canonicalPath p" and nr: "p \<noteq> ''/''"
  shows "\<exists>c rest. p = CHR ''/'' # c # rest \<and> c \<noteq> CHR ''/''"
proof -
  from canonical_segments [OF c nr] obtain y ys where s: "segments p = y # ys"
    by (cases "segments p") auto
  then have "y \<in> set (segments p)" by simp
  then have y: "y \<noteq> []" "CHR ''/'' \<notin> set y" using segments_elem by blast+
  then obtain a as where ya: "y = a # as" by (cases y) auto
  have "p = joinPath (y # ys)" using c s by (simp add: canonicalPath_def)
  then have "p = CHR ''/'' # a # as @ concat (map (\<lambda>x. CHR ''/'' # x) ys)"
    by (simp add: joinPath_Cons ya)
  moreover have "a \<noteq> CHR ''/''" using y(2) ya by auto
  ultimately show ?thesis by blast
qed

lemma pasteNewPath_root:
  assumes "pasteTargetPath base t \<noteq> ''/''"
  shows "pasteNewPath base t ''/'' = pasteTargetPath base t @ ''/''"
  using assms by (simp add: pasteNewPath_def Let_def path_basename_def)

lemma pasteTransfer_not_rejected:
  "pasteTransfer fuel env cb newPath s = Some (r, s') \<Longrightarrow> \<not> rejected r"
  by (auto simp: pasteTransfer_def pasteFailed_def
      split: option.splits prod.splits destination_check.splits sum.splits if_splits)

lemma pasteItem_guarded:
  assumes cb: "clipboard s = Some cb"
    and np: "newPath = pasteNewPath (currentBasePath s) targetDirectory (sourcePath cb)"
    and self: "newPath = sourcePath cb \<or>
               (itemType (item cb) = Directory \<and> startsWith newPath (sourcePath cb @ ''/''))"
  shows "\<exists>r s' cs. pasteItem fuel env targetDirectory s = Some (r, s') \<and> rejected r \<and>
           calls s' = calls s @ cs \<and> filter mutating cs = []"
proof (cases "\<not> isConnected s \<or> \<not> webdavClient s")
  case True
  then have "pasteItem fuel env targetDirectory s = Some (NotConnected, s)"
    by (simp add: pasteItem_def)
  then show ?thesis by simp
next
  case conn: False
  show ?thesis
  proof (cases "date_now env (world s) - timestamp cb > 10 * 60 * 1000")
    case True
    then have "pasteItem fuel env targetDirectory s = Some (ClipboardExpired, s\<lparr>clipboard := None\<rparr>)"
      using conn cb by (simp add: pasteItem_def updateContext_None)
    then show ?thesis by simp
  next
    case fresh: False
    obtain r1 s1 where st: "stat env (sourcePath cb) s = (r1, s1)" by (cases "stat env (sourcePath cb) s")
    from stat_calls [OF st] obtain cs where cs: "calls s1 = calls s @ cs" "filter mutating cs = []" by blast
    show ?thesis
    proof (cases r1)
      case (Inl e)
      then have "pasteItem fuel env targetDirectory s = Some (SourceMissing, s1\<lparr>clipboard := None\<rparr>)"
        using conn cb fresh st by (simp add: pasteItem_def updateContext_None)
      then show ?thesis using cs by simp
    next
      case (Inr info)
      have base: "currentBasePath s1 = currentBasePath s" using stat_provider [OF st] by simp
      have "pasteItem fuel env targetDirectory s = Some (SelfPaste, s1) \<or>
            pasteItem fuel env targetDirectory s = Some (IntoOwnSubtree, s1)"
        using conn cb fresh st Inr self np base by (auto simp: pasteItem_def Let_def)
      then show ?thesis using cs by auto
    qed
  qed
qed

lemma pasteItem_root_source:
  assumes cb: "clipboard s = Some cb"
    and np: "newPath = pasteNewPath (currentBasePath s) targetDirectory (sourcePath cb)"
    and root: "sourcePath cb = ''/''"
    and ct: "canonicalPath (pasteTargetPath (currentBasePath s) targetDirectory)"
    and nt: "pasteTargetPath (currentBasePath s) targetDirectory \<noteq> ''/''"
    and conn: "isConnected s" "webdavClient s"
    and fresh: "\<not> expired env (world s) cb"
    and st: "stat env ''/'' s = (Inr info, s1)"
  shows "newPath = pasteTargetPath (currentBasePath s) targetDirectory @ ''/''"
    and "insideSubtree newPath (sourcePath cb)"
    and "pasteItem fuel env targetDirectory s = pasteTransfer fuel env cb newPath s1"
proof -
  let ?tp = "pasteTargetPath (currentBasePath s) targetDirectory"
  show n: "newPath = ?tp @ ''/''" using np root pasteNewPath_root [OF nt] by simp
  from canonical_shape [OF ct nt] obtain c rest where
    tp: "?tp = CHR ''/'' # c # rest" and c: "c \<noteq> CHR ''/''" by blast
  have "segments ?tp \<noteq> []" by (rule canonical_segments [OF ct nt])
  then show "insideSubtree newPath (sourcePath cb)"
    unfolding n root
    by (simp add: insideSubtree_def segments_snoc_slash segments_root strict_prefix_def)
  have ne: "newPath \<noteq> ''/''" unfolding n tp by simp
  have ns: "\<not> startsWith newPath (''/'' @ ''/'')" unfolding n tp using c by (simp add: startsWith_def)
  have base: "currentBasePath s1 = currentBasePath s" using stat_provider [OF st] by simp
  have fr: "\<not> date_now env (world s) - timestamp cb > 10 * 60 * 1000"
    using fresh by (simp add: expired_iff)
  show "pasteItem fuel env targetDirectory s = pasteTransfer fuel env cb newPath s1"
    using cb conn fr st ne ns base np root
    by (simp add: pasteItem_def Let_def)
qed

text \<open>
  C1 (where the code keeps it and where it departs from it).  A paste whose computed destination is the
  source path itself is rejected; so is the paste of a directory other than the root
  onto a destination that lies strictly inside its subtree, both paths being written in
  canonical form; and in either case the calls issued (at most a \<open>stat\<close> of the
  source) contain no create-directory, put or delete.  When the source is the root,
  the destination computed for a target directory other than the root is the path of
  the target followed by a separator; it lies strictly inside the subtree of the
  source, and yet \<open>pasteItem\<close> goes on to the transfer, which never ends in a
  rejection.
\<close>

theorem pasteItem_rejects_self_paste:
  assumes cb: "clipboard s = Some cb"
    and np: "newPath = pasteNewPath (currentBasePath s) targetDirectory (sourcePath cb)"
  shows "(newPath = sourcePath cb \<or>
          (itemType (item cb) = Directory \<and> sourcePath cb \<noteq> ''/'' \<and>
           canonicalPath (sourcePath cb) \<and> canonicalPath newPath \<and>
           insideSubtree newPath (sourcePath cb)) \<longrightarrow>
            (\<exists>r s' cs. pasteItem fuel env targetDirectory s = Some (r, s') \<and> rejected r \<and>
               calls s' = calls s @ cs \<and> filter mutating cs = [])) \<and>
         (itemType (item cb) = Directory \<and> sourcePath cb = ''/'' \<and>
          canonicalPath (pasteTargetPath (currentBasePath s) targetDirectory) \<and>
          pasteTargetPath (currentBasePath s) targetDirectory \<noteq> ''/'' \<and>
          isConnected s \<and> webdavClient s \<and> \<not> expired env (world s) cb \<and>
          stat env ''/'' s = (Inr info, s1) \<longrightarrow>
            newPath = pasteTargetPath (currentBasePath s) targetDirectory @ ''/'' \<and>
            insideSubtree newPath (sourcePath cb) \<and>
            pasteItem fuel env targetDirectory s = pasteTransfer fuel env cb newPath s1 \<and>
            (\<forall>r s'. pasteItem fuel env targetDirectory s = Some (r, s') \<longrightarrow> \<not> rejected r))"
proof -
  have A: "\<exists>r s' cs. pasteItem fuel env targetDirectory s = Some (r, s') \<and> rejected r \<and>
               calls s' = calls s @ cs \<and> filter mutating cs = []"
    if h: "newPath = sourcePath cb \<or>
          (itemType (item cb) = Directory \<and> sourcePath cb \<noteq> ''/'' \<and>
           canonicalPath (sourcePath cb) \<and> canonicalPath newPath \<and>
           insideSubtree newPath (sourcePath cb))"
  proof -
    have "newPath = sourcePath cb \<or>
          (itemType (item cb) = Directory \<and> startsWith newPath (sourcePath cb @ ''/''))"
      using h inside_startsWith [of "sourcePath cb" newPath] by blast
    then show ?thesis by (rule pasteItem_guarded [OF cb np])
  qed
  have B: "newPath = pasteTargetPath (currentBasePath s) targetDirectory @ ''/'' \<and>
            insideSubtree newPath (sourcePath cb) \<and>
            pasteItem fuel env targetDirectory s = pasteTransfer fuel env cb newPath s1 \<and>
            (\<forall>r s'. pasteItem fuel env targetDirectory s = Some (r, s') \<longrightarrow> \<not> rejected r)"
    if h: "itemType (item cb) = Directory \<and> sourcePath cb = ''/'' \<and>
          canonicalPath (pasteTargetPath (currentBasePath s) targetDirectory) \<and>
          pasteTargetPath (currentBasePath s) targetDirectory \<noteq> ''/'' \<and>
          isConnected s \<and> webdavClient s \<and> \<not> expired env (world s) cb \<and>
          stat env ''/'' s = (Inr info, s1)"
  proof -
    from h have root: "sourcePath cb = ''/''"
      and ct: "canonicalPath (pasteTargetPath (currentBasePath s) targetDirectory)"
      and nt: "pasteTargetPath (currentBasePath s) targetDirectory \<noteq> ''/''"
      and conn: "isConnected s" "webdavClient s"
      and fresh: "\<not> expired env (world s) cb"
      and st: "stat env ''/'' s = (Inr info, s1)" by simp_all
    note r = pasteItem_root_source [OF cb np root ct nt conn fresh st]
    have "\<not> rejected r'" if "pasteItem fuel env targetDirectory s = Some (r', s')" for r' s'
      using that r(3) pasteTransfer_not_rejected by metis
    then show ?thesis using r by blast
  qed
  show ?thesis using A B by blast
qed

theorem pasteItem_rejects_self_paste_witness:
  "clipboard cutNotes =
     Some \<lparr>item = dirItem ''/notes'', operation = Cut, sourcePath = ''/notes'', timestamp = 6000\<rparr> \<and>
   pasteNewPath (currentBasePath cutNotes) (Some (dirItem ''/notes/archive'')) ''/notes'' =
     ''/notes/archive/notes'' \<and>
   canonicalPath ''/notes'' \<and> canonicalPath ''/notes/archive/notes'' \<and>
   insideSubtree ''/notes/archive/notes'' ''/notes'' \<and>
   (\<exists>r s' cs. pasteItem 1 (storeEnv True) (Some (dirItem ''/notes/archive'')) cutNotes = Some (r, s') \<and>
      rejected r \<and> calls s' = calls cutNotes @ cs \<and> filter mutating cs = []) \<and>
   map_option (\<lambda>(r, s). (r, filter mutating (calls s)))
     (pasteItem 1 (storeEnv True) (Some (dirItem ''/notes/archive'')) cutNotes) =
     Some (IntoOwnSubtree, []) \<and>
   clipboard copiedRoot =
     Some \<lparr>item = emptyPlaceholder ''/'', operation = Copy, sourcePath = ''/'', timestamp = 1000\<rparr> \<and>
   pasteTargetPath (currentBasePath copiedRoot) (Some (dirItem ''/docs'')) = ''/docs'' \<and>
   canonicalPath ''/docs'' \<and>
   fst (stat (storeEnv True) ''/'' copiedRoot) = Inr (statOf ''/'' DirNode) \<and>
   pasteNewPath (currentBasePath copiedRoot) (Some (dirItem ''/docs'')) ''/'' = ''/docs/'' \<and>
   insideSubtree ''/docs/'' ''/'' \<and>
   map_option (\<lambda>(r, s). rejected r)
     (pasteItem 3 (storeEnv True) (Some (dirItem ''/docs'')) copiedRoot) = Some False"
proof -
  let ?cb = "\<lparr>item = dirItem ''/notes'', operation = Cut, sourcePath = ''/notes'', timestamp = 6000\<rparr>"
  let ?rb = "\<lparr>item = emptyPlaceholder ''/'', operation = Copy, sourcePath = ''/'', timestamp = 1000\<rparr>"
  let ?env = "storeEnv True"
  let ?p = "pasteItem 3 ?env (Some (dirItem ''/docs'')) copiedRoot"
  have h1: "clipboard cutNotes = Some ?cb" by code_simp
  have h2: "pasteNewPath (currentBasePath cutNotes) (Some (dirItem ''/notes/archive'')) ''/notes'' =
      ''/notes/archive/notes''" by code_simp
  have h3: "''/notes/archive/notes'' =
      pasteNewPath (currentBasePath cutNotes) (Some (dirItem ''/notes/archive'')) (sourcePath ?cb)"
    using h2 by simp
  have c1: "canonicalPath ''/notes''" by code_simp
  have c2: "canonicalPath ''/notes/archive/notes''" by code_simp
  have c3: "insideSubtree ''/notes/archive/notes'' ''/notes''" by code_simp
  have d: "itemType (item ?cb) = Directory" by (simp add: dirItem_def)
  note w1 = pasteItem_rejects_self_paste [OF h1 h3, of 1 ?env, THEN conjunct1]
  have r1: "\<exists>r s' cs. pasteItem 1 ?env (Some (dirItem ''/notes/archive'')) cutNotes = Some (r, s') \<and>
      rejected r \<and> calls s' = calls cutNotes @ cs \<and> filter mutating cs = []"
    using w1 c1 c2 c3 d by simp
  have e1: "map_option (\<lambda>(r, s). (r, filter mutating (calls s)))
     (pasteItem 1 ?env (Some (dirItem ''/notes/archive'')) cutNotes) = Some (IntoOwnSubtree, [])"
    by code_simp
  have g1: "clipboard copiedRoot = Some ?rb" by code_simp
  have g2: "pasteTargetPath (currentBasePath copiedRoot) (Some (dirItem ''/docs'')) = ''/docs''"
    by code_simp
  have g3: "canonicalPath ''/docs''" by code_simp
  have g4: "fst (stat ?env ''/'' copiedRoot) = Inr (statOf ''/'' DirNode)" by code_simp
  then have g5: "stat ?env ''/'' copiedRoot = (Inr (statOf ''/'' DirNode), snd (stat ?env ''/'' copiedRoot))"
    by (cases "stat ?env ''/'' copiedRoot") simp
  have g6: "pasteNewPath (currentBasePath copiedRoot) (Some (dirItem ''/docs'')) ''/'' = ''/docs/''"
    by code_simp
  have g7: "''/docs/'' = pasteNewPath (currentBasePath copiedRoot) (Some (dirItem ''/docs'')) (sourcePath ?rb)"
    using g6 by simp
  have g8: "isConnected copiedRoot" "webdavClient copiedRoot" by code_simp+
  have g9: "\<not> expired ?env (world copiedRoot) ?rb" by code_simp
  have g10: "itemType (item ?rb) = Directory" by (simp add: emptyPlaceholder_def)
  note w2 = pasteItem_rejects_self_paste [OF g1 g7, where fuel = 3 and env = ?env
      and info = "statOf ''/'' DirNode" and ?s1.0 = "snd (stat ?env ''/'' copiedRoot)",
      THEN conjunct2]
  have r2: "insideSubtree ''/docs/'' ''/''" and
    r3: "\<forall>r s'. ?p = Some (r, s') \<longrightarrow> \<not> rejected r"
    using w2 g2 g3 g5 g8 g9 g10 by simp_all
  have "case ?p of None \<Rightarrow> False | Some x \<Rightarrow> True" by code_simp
  then obtain r s' where "?p = Some (r, s')" by (cases ?p) auto
  then have r4: "map_option (\<lambda>(r, s). rejected r) ?p = Some False" using r3 by simp
  show ?thesis
    by (intro conjI) (rule h1, rule h2, rule c1, rule c2, rule c3, rule r1, rule e1, rule g1,
        rule g2, rule g3, rule g4, rule g6, rule r2, rule r4)
qed

text \<open>
  Against C1: the placeholder of the empty root has been copied, so the source of the
  clipboard entry is the root, and the paste goes into the directory \<open>/docs\<close>.  The
  destination \<open>/docs/\<close> lies inside the subtree of the source and differs from it,
  but it does not start with the source followed by a separator, which is \<open>//\<close>.
  The paste is not rejected: it creates \<open>/docs/\<close> and goes on copying the root into
  it.
\<close>

theorem pasteItem_root_into_subtree:
  "clipboard copiedRoot =
     Some \<lparr>item = emptyPlaceholder ''/'', operation = Copy, sourcePath = ''/'', timestamp = 1000\<rparr> \<and>
   itemType (emptyPlaceholder ''/'') = Directory \<and>
   pasteNewPath (currentBasePath copiedRoot) (Some (dirItem ''/docs'')) ''/'' = ''/docs/'' \<and>
   insideSubtree ''/docs/'' ''/'' \<and>
   \<not> startsWith ''/docs/'' (''/'' @ ''/'') \<and>
   map_option (\<lambda>(r, s). (rejected r, take 1 (filter mutating (newCalls copiedRoot s))))
     (pasteItem 3 (storeEnv True) (Some (dirItem ''/docs'')) copiedRoot) =
     Some (False, [MakeDir demoClient ''/docs/'' True])"
  by code_simp

text \<open>
  C4 (as the code has it).  A paste attempted later than the time of the entry plus the
  expiry window is rejected without any call and without any other change of the state.
  When the provider is connected and has its client, the result is the expiry message and
  the clipboard is emptied; when it is not, the guard at the head of \<open>pasteItem\<close>
  answers first and the entry stays in the clipboard.
\<close>

theorem pasteItem_expired:
  assumes "clipboard s = Some cb" and "date_now env (world s) > timestamp cb + expiryWindow"
  shows "pasteItem fuel env targetDirectory s =
           (if isConnected s \<and> webdavClient s then Some (ClipboardExpired, s\<lparr>clipboard := None\<rparr>)
            else Some (NotConnected, s))"
  using assms by (auto simp: pasteItem_def expiryWindow_def updateContext_None)


theorem pasteItem_expired_witness:
  "clipboard expiredCopy =
     Some \<lparr>item = fileItem ''/notes/todo.md'', operation = Copy, sourcePath = ''/notes/todo.md'',
           timestamp = 1000\<rparr> \<and>
   date_now (storeEnv True) (world expiredCopy) = 1000 + expiryWindow + 1 \<and>
   isConnected expiredCopy \<and> webdavClient expiredCopy \<and>
   pasteItem 1 (storeEnv True) None expiredCopy =
     Some (ClipboardExpired, expiredCopy\<lparr>clipboard := None\<rparr>)"
proof -
  let ?cb = "\<lparr>item = fileItem ''/notes/todo.md'', operation = Copy, sourcePath = ''/notes/todo.md'',
             timestamp = 1000\<rparr>"
  have h1: "clipboard expiredCopy = Some ?cb" by code_simp
  have h2: "date_now (storeEnv True) (world expiredCopy) = 1000 + expiryWindow + 1" by code_simp
  have h3: "date_now (storeEnv True) (world expiredCopy) > timestamp ?cb + expiryWindow"
    unfolding h2 by simp
  have c1: "isConnected expiredCopy" and c2: "webdavClient expiredCopy" by code_simp+
  have "pasteItem 1 (storeEnv True) None expiredCopy =
      Some (ClipboardExpired, expiredCopy\<lparr>clipboard := None\<rparr>)"
    using pasteItem_expired [OF h1 h3, of 1 None] c1 c2 by simp
  then show ?thesis using h1 h2 c1 c2 by simp
qed

text \<open>
  Against C4 as the specification words it: the entry was copied at clock 1000, the
  program was disconnected, and the paste comes one millisecond after the window.  It
  is rejected without a call, but the clipboard still holds the entry.
\<close>

theorem pasteItem_expired_counterexample:
  "map_option timestamp (clipboard copiedOffline) = Some 1000 \<and>
   date_now (storeEnv True) (world copiedOffline) = 1000 + expiryWindow + 1 \<and>
   map_option (\<lambda>(r, s). (r, clipboard s = clipboard copiedOffline, clipboard s \<noteq> None, calls s))
     (pasteItem 1 (storeEnv True) None copiedOffline) = Some (NotConnected, True, True, [])"
  by code_simp





section \<open>Cut\<close>

text \<open>
  C5 (as the code has it).  \<open>cutItem\<close> issues no call that changes the remote tree:
  either it issues no call at all and the world is as before, or its one call is a
  \<open>stat\<close> of the path of the item and the world is what that \<open>stat\<close> leaves.
  Deleting the source is left to a later paste of the entry, which may delete part of
  it and then fail.
\<close>

theorem cutItem_frame:
  "filter mutating (newCalls s (cutItem env it s)) = [] \<and>
   ((calls (cutItem env it s) = calls s \<and> world (cutItem env it s) = world s) \<or>
    (\<exists>conn. connection s = Some conn \<and>
       calls (cutItem env it s) = calls s @ [StatPath (client conn) (path it)] \<and>
       world (cutItem env it s) = snd (lib_stat env (client conn) (path it) (world s))))"
proof -
  have upd: "calls (updateContext env t) = calls t \<and> world (updateContext env t) = world t" for t
    by (simp add: updateContext_def getClipboardStatus_def split: option.splits)
  have 2: "(calls (cutItem env it s) = calls s \<and> world (cutItem env it s) = world s) \<or>
    (\<exists>conn. connection s = Some conn \<and>
       calls (cutItem env it s) = calls s @ [StatPath (client conn) (path it)] \<and>
       world (cutItem env it s) = snd (lib_stat env (client conn) (path it) (world s)))"
    by (auto simp: cutItem_def stat_def invoke_def upd
        split: prod.splits sum.splits option.splits)
  then have "filter mutating (newCalls s (cutItem env it s)) = []"
    by (auto simp: newCalls_def)
  then show ?thesis using 2 by blast
qed

theorem cutItem_frame_witness:
  "calls cutTodo = [StatPath demoClient ''/notes/todo.md''] \<and>
   filter mutating (newCalls (connectedState notesStore) cutTodo) = [] \<and>
   nodes (world cutTodo) = nodes notesStore"
proof -
  have c: "calls cutTodo = [StatPath demoClient ''/notes/todo.md'']" by code_simp
  have n: "nodes (world cutTodo) = nodes notesStore" by code_simp
  from cutItem_frame [of "connectedState notesStore" "storeEnv True" "fileItem ''/notes/todo.md''"]
  have "filter mutating (newCalls (connectedState notesStore) cutTodo) = []"
    by (simp add: cutTodo_def)
  then show ?thesis using c n by simp
qed

text \<open>
  Against the last part of C5 as the specification words it: the directory \<open>/d\<close> is
  cut and pasted into \<open>/t\<close>.  Its first file is moved, and with that deleted at the
  source; its second file cannot be read, and the paste ends in failure.  There is no
  rollback: the cut source has lost a file in a paste that did not succeed.
\<close>

theorem cut_source_deleted_by_failed_paste:
  "map_of (nodes (world cutGuarded)) ''/d/a.txt'' = Some (FileNode ''A'') \<and>
   map_option
     (\<lambda>(r, s). (r, map_of (nodes (world s)) ''/d/a.txt'', filter mutating (calls s)))
     (pasteItem 3 (storeEnv True) (Some (dirItem ''/t'')) cutGuarded) =
   Some (PasteFailed (Error (msg_cannot_read @ msg_no_permission)), None,
         [MakeDir demoClient ''/t/d'' True, PutFile demoClient ''/t/d/a.txt'' (Str ''A'') True,
          DeleteRemote demoClient ''/d/a.txt''])"
  by code_simp

section \<open>Transfer of a file whose source is missing\<close>

lemma str_includes_append_skip:
  assumes "t \<noteq> []" "hd t \<notin> set a"
  shows "str_includes (a @ b) t = str_includes b t"
  using assms
proof (induction a)
  case Nil
  then show ?case by simp
next
  case (Cons x a)
  then have "\<not> prefix t ((x # a) @ b)" by (cases t) auto
  then show ?case using Cons by simp
qed

lemma mentions404_file_missing:
  "mentions404 (Error (msg_file_missing @ p)) \<longleftrightarrow> str_includes p ''404'' \<or> str_includes p ''Not Found''"
  by (simp add: mentions404_def Error_def str_includes_append_skip msg_file_missing_def)


text \<open>
  C9 (where the code departs from it).  The client turns a 404 answer to a read into an
  error whose message is ``file does not exist:'' followed by the path, and that message
  mentions neither \<open>404\<close> nor \<open>Not Found\<close> unless the path does.  So when both reads
  of the source of a cut are answered with status 404, \<open>copyOrMoveFile\<close> fails with
  ``cannot read the file content'', having issued the two reads and nothing else: no
  empty file is written and no delete is attempted.
\<close>

theorem copyOrMoveFile_cut_missing_source:
  assumes cl: "webdavClient s" and conn: "connection s = Some conn"
    and r1: "lib_getFileContents env (client conn) src TextFormat (world s) = (Inl e1, w1)"
    and s1: "status e1 = Some 404"
    and r2: "lib_getFileContents env (client conn) src BinaryFormat w1 = (Inl e2, w2)"
    and s2: "status e2 = Some 404"
    and np: "\<not> str_includes src ''404''" "\<not> str_includes src ''Not Found''"
  shows "copyOrMoveFile env src tgt Cut s =
           (Inl (Error (msg_cannot_read @ msg_file_missing @ src)),
            s\<lparr>world := w2,
              calls := calls s @ [GetFile (client conn) src TextFormat,
                                  GetFile (client conn) src BinaryFormat]\<rparr>)"
proof -
  have g1: "getFileContents env src TextFormat s =
      (Inl (Error (msg_file_missing @ src)),
       s\<lparr>world := w1, calls := calls s @ [GetFile (client conn) src TextFormat]\<rparr>)"
    using conn r1 s1 by (simp add: getFileContents_def invoke_def)
  have g2: "getFileContents env src BinaryFormat
        (s\<lparr>world := w1, calls := calls s @ [GetFile (client conn) src TextFormat]\<rparr>) =
      (Inl (Error (msg_file_missing @ src)),
       s\<lparr>world := w2, calls := calls s @ [GetFile (client conn) src TextFormat,
                                          GetFile (client conn) src BinaryFormat]\<rparr>)"
    using conn r2 s2 by (simp add: getFileContents_def invoke_def)
  have m: "message (Error (msg_file_missing @ src)) = msg_file_missing @ src"
    by (simp add: Error_def)
  have ne: "msg_file_missing @ src \<noteq> []" by (simp add: msg_file_missing_def)
  show ?thesis
    using cl g1 g2 np ne
    by (simp add: copyOrMoveFile_def readSource_def mentions404_file_missing m)
qed



theorem copyOrMoveFile_cut_missing_source_witness:
  "webdavClient (connectedState notesStore) \<and>
   connection (connectedState notesStore) = Some demoConnection \<and>
   lib_getFileContents (storeEnv True) (client demoConnection) ''/notes/gone.md'' TextFormat
     (world (connectedState notesStore)) = (Inl notFound, notesStore\<lparr>clock := 6000\<rparr>) \<and>
   lib_getFileContents (storeEnv True) (client demoConnection) ''/notes/gone.md'' BinaryFormat
     (notesStore\<lparr>clock := 6000\<rparr>) = (Inl notFound, notesStore\<lparr>clock := 11000\<rparr>) \<and>
   status notFound = Some 404 \<and>
   \<not> str_includes ''/notes/gone.md'' ''404'' \<and> \<not> str_includes ''/notes/gone.md'' ''Not Found'' \<and>
   fst (copyOrMoveFile (storeEnv True) ''/notes/gone.md'' ''/notes/archive/gone.md'' Cut
          (connectedState notesStore)) =
     Inl (Error (msg_cannot_read @ msg_file_missing @ ''/notes/gone.md'')) \<and>
   calls (snd (copyOrMoveFile (storeEnv True) ''/notes/gone.md'' ''/notes/archive/gone.md'' Cut
          (connectedState notesStore))) =
     [GetFile demoClient ''/notes/gone.md'' TextFormat,
      GetFile demoClient ''/notes/gone.md'' BinaryFormat]"
proof -
  let ?s = "connectedState notesStore"
  have h1: "webdavClient ?s" by code_simp
  have h2: "connection ?s = Some demoConnection" by code_simp
  have h3: "lib_getFileContents (storeEnv True) (client demoConnection) ''/notes/gone.md''
      TextFormat (world ?s) = (Inl notFound, notesStore\<lparr>clock := 6000\<rparr>)" by code_simp
  have h4: "lib_getFileContents (storeEnv True) (client demoConnection) ''/notes/gone.md''
      BinaryFormat (notesStore\<lparr>clock := 6000\<rparr>) = (Inl notFound, notesStore\<lparr>clock := 11000\<rparr>)"
    by code_simp
  have h5: "status notFound = Some 404" by code_simp
  have h6: "\<not> str_includes ''/notes/gone.md'' ''404''" by code_simp
  have h7: "\<not> str_includes ''/notes/gone.md'' ''Not Found''" by code_simp
  have cl: "client demoConnection = demoClient" by code_simp
  have cs: "calls ?s = []" by code_simp
  note w = copyOrMoveFile_cut_missing_source [OF h1 h2 h3 h5 h4 h5 h6 h7,
      of "''/notes/archive/gone.md''"]
  have r: "fst (copyOrMoveFile (storeEnv True) ''/notes/gone.md'' ''/notes/archive/gone.md'' Cut ?s) =
      Inl (Error (msg_cannot_read @ msg_file_missing @ ''/notes/gone.md''))"
    unfolding w by simp
  have c: "calls (snd (copyOrMoveFile (storeEnv True) ''/notes/gone.md''
        ''/notes/archive/gone.md'' Cut ?s)) =
      [GetFile demoClient ''/notes/gone.md'' TextFormat,
       GetFile demoClient ''/notes/gone.md'' BinaryFormat]"
    unfolding w by (simp add: cl cs)
  show ?thesis by (intro conjI) (rule h1, rule h2, rule h3, rule h4, rule h5, rule h6, rule h7, rule r, rule c)
qed

text \<open>
  What the comments in \<open>copyOrMoveFile\<close> describe does happen when the error of the
  binary read, as it reaches the function, mentions 404: the read of a cut then yields
  the empty text, which is written through \<open>createFile\<close>, and an error mentioning 404
  from the delete of the source is ignored.  Through the client this needs a path that
  itself contains \<open>404\<close> or \<open>Not Found\<close>.
\<close>

lemma copyOrMoveFile_cut_error_mentions_404:
  assumes "webdavClient s"
    and "getFileContents env src TextFormat s = (Inl e1, s1)"
    and "getFileContents env src BinaryFormat s1 = (Inl e2, s2)"
    and "mentions404 e2"
  shows "copyOrMoveFile env src tgt Cut s =
           (case createFile env tgt [] True s2 of
              (Inl writeError, s3) \<Rightarrow> (Inl writeError, s3)
            | (Inr _, s3) \<Rightarrow>
                (case deleteFile env src s3 of
                   (Inr _, s4) \<Rightarrow> (Inr (), s4)
                 | (Inl deleteError, s4) \<Rightarrow>
                     if mentions404 deleteError then (Inr (), s4) else (Inl deleteError, s4)))"
  using assms
  by (simp add: copyOrMoveFile_def readSource_def writeTarget_def split: prod.splits sum.splits)

lemma copyOrMoveFile_cut_path_with_404:
  "fst (copyOrMoveFile (storeEnv True) ''/notes/404.md'' ''/notes/archive/404.md'' Cut
         (connectedState notesStore)) = Inr () \<and>
   map_of (nodes (world (snd (copyOrMoveFile (storeEnv True) ''/notes/404.md''
         ''/notes/archive/404.md'' Cut (connectedState notesStore))))) ''/notes/archive/404.md'' =
     Some (FileNode [])"
  by code_simp

section \<open>Opening a document\<close>

lemma getFileContents_connected:
  assumes conn: "connection s = Some conn"
    and g: "getFileContents env p fmt s = (r, s1)"
  shows "s1 = s\<lparr>world := snd (lib_getFileContents env (client conn) p fmt (world s)),
                 calls := calls s @ [GetFile (client conn) p fmt]\<rparr>"
    and "\<And>c. fst (lib_getFileContents env (client conn) p fmt (world s)) = Inr c \<Longrightarrow> r = Inr c"
    and "\<And>e. fst (lib_getFileContents env (client conn) p fmt (world s)) = Inl e \<Longrightarrow> \<exists>e'. r = Inl e'"
  using assms
  by (auto simp: getFileContents_def invoke_def split: prod.splits sum.splits if_splits)


lemma not_connected_no_404: "\<not> mentions404 (Error msg_not_connected)"
  by (simp add: mentions404_def Error_def msg_not_connected_def)

text \<open>
  C3 (as the code has it).  The handle of an open is \<open>createVirtualFileUri\<close> of the
  remote path and the display name, whatever the state, so two opens of the same pair
  resolve to the same handle.  Every successful open, also of a document that is already
  tracked, has fetched the remote content again and written the cache, and has replaced
  the tracked document by a clean one, leaving the other documents alone; the new
  document holds the text fetched, or the empty text when the fetch has thrown an error
  that mentions 404.  When the fetch throws an error that does not mention 404, the open
  throws that error and the tracked documents stay as they were.
\<close>

theorem openFile_refetches:
  "(openFile env p name s = (Inr uri, s') \<longrightarrow>
      uri = createVirtualFileUri p name \<and>
      (\<exists>conn body.
         connection s = Some conn \<and>
         calls s' = calls s @ [GetFile (client conn) p TextFormat,
                               WriteCache (uri_toString env uri) body] \<and>
         virtualFiles s' =
           (virtualFiles s)(uri_toString env uri \<mapsto>
              \<lparr>webdavPath = p, fileName = name, content = body,
               mtime = date_now env (world (snd (getFileContents env p TextFormat s))),
               ctime = date_now env (world (snd (getFileContents env p TextFormat s))),
               isDirty = False\<rparr>) \<and>
         (case fst (getFileContents env p TextFormat s) of
            Inr fetched \<Rightarrow> body = fetched
          | Inl e \<Rightarrow> body = [] \<and> mentions404 e))) \<and>
   (fsClient s \<and> fst (getFileContents env p TextFormat s) = Inl e \<and> \<not> mentions404 e \<longrightarrow>
      fst (openFile env p name s) = Inl e \<and>
      virtualFiles (snd (openFile env p name s)) = virtualFiles s)"
proof -
  have B: "fst (openFile env p name s) = Inl e \<and>
      virtualFiles (snd (openFile env p name s)) = virtualFiles s"
    if h: "fsClient s \<and> fst (getFileContents env p TextFormat s) = Inl e \<and> \<not> mentions404 e"
  proof -
  from h have cl: "fsClient s" and f: "fst (getFileContents env p TextFormat s) = Inl e"
    and n: "\<not> mentions404 e" by simp_all
  obtain s1 where g: "getFileContents env p TextFormat s = (Inl e, s1)"
    using f by (cases "getFileContents env p TextFormat s") simp
  have o: "openFile env p name s = (Inl e, s1)" using cl g n by (simp add: openFile_def)
  have "virtualFiles s1 = virtualFiles s"
    using g by (auto simp: getFileContents_def invoke_def split: option.splits prod.splits
        sum.splits if_splits)
  then show ?thesis using o by simp
  qed
  have A: "uri = createVirtualFileUri p name \<and> (\<exists>conn body.
         connection s = Some conn \<and>
         calls s' = calls s @ [GetFile (client conn) p TextFormat,
                               WriteCache (uri_toString env uri) body] \<and>
         virtualFiles s' =
           (virtualFiles s)(uri_toString env uri \<mapsto>
              \<lparr>webdavPath = p, fileName = name, content = body,
               mtime = date_now env (world (snd (getFileContents env p TextFormat s))),
               ctime = date_now env (world (snd (getFileContents env p TextFormat s))),
               isDirty = False\<rparr>) \<and>
         (case fst (getFileContents env p TextFormat s) of
            Inr fetched \<Rightarrow> body = fetched
          | Inl e \<Rightarrow> body = [] \<and> mentions404 e))"
    if op: "openFile env p name s = (Inr uri, s')"
  proof -
  have cl: "fsClient s" using op by (auto simp: openFile_def split: if_splits)
  obtain conn where conn: "connection s = Some conn"
    using op cl not_connected_no_404
    by (cases "connection s") (auto simp: openFile_def getFileContents_def)
  obtain r0 s1 where g: "getFileContents env p TextFormat s = (r0, s1)"
    by (cases "getFileContents env p TextFormat s")
  note gc = getFileContents_connected [OF conn g]
  define body where "body = (case r0 of Inr c \<Rightarrow> c | Inl e \<Rightarrow> [])"
  have fetched: "(case r0 of Inr c \<Rightarrow> (Inr c, s1)
                  | Inl e \<Rightarrow> if mentions404 e then (Inr [], s1) else (Inl e, s1)) = (Inr body, s1)"
    using op cl g by (auto simp: openFile_def body_def split: sum.splits if_splits prod.splits)
  let ?key = "uri_toString env (createVirtualFileUri p name)"
  let ?now = "date_now env (world s1)"
  let ?s2 = "s1\<lparr>virtualFiles := (virtualFiles s1)(?key \<mapsto>
               \<lparr>webdavPath = p, fileName = name, content = body, mtime = ?now, ctime = ?now,
                isDirty = False\<rparr>)\<rparr>"
  obtain r3 s3 where w: "invoke (fs_writeCache env ?key body) (WriteCache ?key body) ?s2 = (r3, s3)"
    by (cases "invoke (fs_writeCache env ?key body) (WriteCache ?key body) ?s2")
  have res: "uri = createVirtualFileUri p name" "s' = s3"
    using op cl g fetched w by (auto simp: openFile_def Let_def split: sum.splits)
  have vf: "virtualFiles s3 = virtualFiles ?s2" and cs: "calls s3 = calls ?s2 @ [WriteCache ?key body]"
    using w by (auto simp: invoke_def split: prod.splits)
  have c1: "calls s1 = calls s @ [GetFile (client conn) p TextFormat]"
    by (subst gc(1)) simp
  have v1: "virtualFiles s1 = virtualFiles s"
    by (subst gc(1)) simp
  have tx: "(case fst (getFileContents env p TextFormat s) of
               Inr fetched \<Rightarrow> body = fetched | Inl e \<Rightarrow> body = [] \<and> mentions404 e)"
  proof (cases r0)
    case (Inl e)
    then have "mentions404 e" using fetched by (simp split: if_splits)
    then show ?thesis using Inl g by (simp add: body_def)
  next
    case (Inr c)
    then show ?thesis using g by (simp add: body_def)
  qed
  have "virtualFiles s' =
      (virtualFiles s)(uri_toString env uri \<mapsto>
         \<lparr>webdavPath = p, fileName = name, content = body,
          mtime = date_now env (world (snd (getFileContents env p TextFormat s))),
          ctime = date_now env (world (snd (getFileContents env p TextFormat s))),
          isDirty = False\<rparr>)"
    using res vf v1 g by simp
  moreover have "calls s' = calls s @ [GetFile (client conn) p TextFormat,
                                       WriteCache (uri_toString env uri) body]"
    using res cs c1 by simp
  ultimately have "\<exists>conn body.
         connection s = Some conn \<and>
         calls s' = calls s @ [GetFile (client conn) p TextFormat,
                               WriteCache (uri_toString env uri) body] \<and>
         virtualFiles s' =
           (virtualFiles s)(uri_toString env uri \<mapsto>
              \<lparr>webdavPath = p, fileName = name, content = body,
               mtime = date_now env (world (snd (getFileContents env p TextFormat s))),
               ctime = date_now env (world (snd (getFileContents env p TextFormat s))),
               isDirty = False\<rparr>) \<and>
         (case fst (getFileContents env p TextFormat s) of
            Inr fetched \<Rightarrow> body = fetched
          | Inl e \<Rightarrow> body = [] \<and> mentions404 e)"
    using tx conn by blast
  then show ?thesis using res(1) by simp
  qed
  show ?thesis using A B by blast
qed

theorem openFile_refetches_witness:
  "fst (openFile (storeEnv True) ''/notes/todo.md'' ''todo.md'' editedTodo) = Inr todoUri \<and>
   todoUri = createVirtualFileUri ''/notes/todo.md'' ''todo.md'' \<and>
   virtualFiles editedTodo todoUri \<noteq> None \<and>
   (\<exists>conn body. connection editedTodo = Some conn \<and>
      calls (snd (openFile (storeEnv True) ''/notes/todo.md'' ''todo.md'' editedTodo)) =
      calls editedTodo @ [GetFile (client conn) ''/notes/todo.md'' TextFormat,
                          WriteCache (uri_toString (storeEnv True) todoUri) body]) \<and>
   fsClient (connectedState notesStore) \<and>
   fst (getFileContents (storeEnv True) ''/notes/gone.md'' TextFormat (connectedState notesStore)) =
     Inl (Error (msg_file_missing @ ''/notes/gone.md'')) \<and>
   \<not> mentions404 (Error (msg_file_missing @ ''/notes/gone.md'')) \<and>
   fst (openFile (storeEnv True) ''/notes/gone.md'' ''gone.md'' (connectedState notesStore)) =
     Inl (Error (msg_file_missing @ ''/notes/gone.md''))"
proof -
  let ?o = "openFile (storeEnv True) ''/notes/todo.md'' ''todo.md'' editedTodo"
  let ?e = "Error (msg_file_missing @ ''/notes/gone.md'')"
  have e: "fst ?o = Inr todoUri" by code_simp
  then have h: "?o = (Inr todoUri, snd ?o)" by (cases ?o) simp
  have t: "virtualFiles editedTodo todoUri \<noteq> None" by code_simp
  have u: "todoUri = createVirtualFileUri ''/notes/todo.md'' ''todo.md''" by (simp add: todoUri_def)
  have c: "fsClient (connectedState notesStore)" by (simp add: connectedState_def)
  have f: "fst (getFileContents (storeEnv True) ''/notes/gone.md'' TextFormat
             (connectedState notesStore)) = Inl ?e" by code_simp
  have n: "\<not> mentions404 ?e" by code_simp
  note w1 = openFile_refetches [where env = "storeEnv True" and p = "''/notes/todo.md''"
      and name = "''todo.md''" and s = editedTodo and uri = todoUri and s' = "snd ?o"]
  note w2 = openFile_refetches [where env = "storeEnv True" and p = "''/notes/gone.md''"
      and name = "''gone.md''" and s = "connectedState notesStore" and e = ?e]
  have 1: "\<exists>conn body. connection editedTodo = Some conn \<and>
      calls (snd ?o) = calls editedTodo @ [GetFile (client conn) ''/notes/todo.md'' TextFormat,
                          WriteCache (uri_toString (storeEnv True) todoUri) body]"
    using w1 h by blast
  have 2: "fst (openFile (storeEnv True) ''/notes/gone.md'' ''gone.md'' (connectedState notesStore)) =
     Inl ?e"
    using w2 c f n by blast
  show ?thesis using e u t 1 c f n 2 by blast
qed

text \<open>
  Against C3 as the specification words it: \<open>/notes/todo.md\<close> is open and has been
  edited, so the tracked document is dirty and holds the edited text.  A second open of
  the same pair returns the same handle, but it reads the remote file again, and the
  tracked document comes out clean with the remote text in place of the edited one.
\<close>

theorem openFile_counterexample:
  "fst (openFile (storeEnv True) ''/notes/todo.md'' ''todo.md'' (connectedState notesStore)) =
     Inr todoUri \<and>
   map_option (\<lambda>f. (content f, isDirty f)) (virtualFiles editedTodo todoUri) =
     Some (''- buy milk and bread'', True) \<and>
   (case openFile (storeEnv True) ''/notes/todo.md'' ''todo.md'' editedTodo of
      (r, s) \<Rightarrow> (r, map_option (\<lambda>f. (content f, isDirty f)) (virtualFiles s todoUri),
                   newCalls editedTodo s)) =
     (Inr todoUri, Some (''- buy milk'', False),
      [GetFile demoClient ''/notes/todo.md'' TextFormat, WriteCache todoUri ''- buy milk''])"
  by code_simp

section \<open>Listings\<close>

lemma compareEntries_le: "compareEntries lc a b \<le> 0 \<longleftrightarrow> entryLe lc a b"
  by (auto simp: compareEntries_def entryLe_def)

lemma entryLe_total: "totalPreorder lc \<Longrightarrow> \<not> entryLe lc a b \<Longrightarrow> entryLe lc b a"
  unfolding totalPreorder_def entryLe_def by blast

lemma entryLe_trans: "totalPreorder lc \<Longrightarrow> entryLe lc a b \<Longrightarrow> entryLe lc b c \<Longrightarrow> entryLe lc a c"
  unfolding totalPreorder_def entryLe_def by blast

lemma set_insertBy: "set (insertBy cmp x xs) = insert x (set xs)"
  by (induction xs) auto

lemma sorted_insertBy:
  assumes tp: "totalPreorder lc" and s: "sorted_wrt (entryLe lc) xs"
  shows "sorted_wrt (entryLe lc) (insertBy (compareEntries lc) x xs)"
  using s
proof (induction xs)
  case Nil
  then show ?case by simp
next
  case (Cons y ys)
  show ?case
  proof (cases "compareEntries lc x y \<le> 0")
    case True
    then have xy: "entryLe lc x y" by (simp add: compareEntries_le)
    have "\<forall>z \<in> set ys. entryLe lc x z"
      using Cons.prems xy entryLe_trans [OF tp] by auto
    then show ?thesis using True xy Cons.prems by simp
  next
    case False
    then have yx: "entryLe lc y x" using entryLe_total [OF tp] by (simp add: compareEntries_le)
    then show ?thesis using False Cons by (auto simp: set_insertBy)
  qed
qed

lemma sorted_array_sort:
  "totalPreorder lc \<Longrightarrow> sorted_wrt (entryLe lc) (array_sort (compareEntries lc) xs)"
  unfolding array_sort_def by (induction xs) (auto intro: sorted_insertBy)

lemma toTreeItem_kind: "itemType (toTreeItem base p e) = (if isDirEntry e then Directory else File)"
  by (simp add: toTreeItem_def Let_def)

lemma toTreeItem_label: "entryName e \<noteq> [] \<Longrightarrow> label (toTreeItem base p e) = entryName e"
  by (simp add: toTreeItem_def Let_def)

lemma entryLe_itemLe:
  "entryName a \<noteq> [] \<Longrightarrow> entryName b \<noteq> [] \<Longrightarrow> entryLe lc a b \<Longrightarrow>
     itemLe lc (toTreeItem base p a) (toTreeItem base p b)"
  by (auto simp: entryLe_def itemLe_def toTreeItem_kind toTreeItem_label)


lemma compareText_total: "compareText a b \<le> 0 \<or> compareText b a \<le> 0"
  by (induction a b rule: compareText.induct) auto

lemma compareText_Cons_le:
  "compareText (x # xs) (y # ys) \<le> 0 \<longleftrightarrow>
     foldCase x < foldCase y \<or> (foldCase x = foldCase y \<and> compareText xs ys \<le> 0)"
  by auto

lemma compareText_trans:
  "compareText a b \<le> 0 \<Longrightarrow> compareText b c \<le> 0 \<Longrightarrow> compareText a c \<le> 0"
proof (induction a arbitrary: b c)
  case Nil
  then show ?case by (cases c) simp_all
next
  case (Cons x xs)
  from Cons.prems(1) obtain y ys where b: "b = y # ys" by (cases b) simp_all
  from Cons.prems(2) b obtain z zs where c: "c = z # zs" by (cases c) simp_all
  from Cons.prems(1) have 1: "foldCase x < foldCase y \<or> (foldCase x = foldCase y \<and> compareText xs ys \<le> 0)"
    unfolding b compareText_Cons_le .
  from Cons.prems(2) have 2: "foldCase y < foldCase z \<or> (foldCase y = foldCase z \<and> compareText ys zs \<le> 0)"
    unfolding b c compareText_Cons_le .
  have "foldCase x < foldCase z \<or> (foldCase x = foldCase z \<and> compareText xs zs \<le> 0)"
    using 1 2 Cons.IH [of ys zs] by (metis less_trans)
  then show ?case unfolding c compareText_Cons_le .
qed

lemma totalPreorder_compareText: "totalPreorder compareText"
  unfolding totalPreorder_def using compareText_total compareText_trans by blast

lemma mset_insertBy: "mset (insertBy cmp x xs) = add_mset x (mset xs)"
  by (induction xs) auto

lemma mset_array_sort: "mset (array_sort cmp xs) = mset xs"
  unfolding array_sort_def by (induction xs) (auto simp: mset_insertBy)

lemma foldedCompare_id: "caseInsensitive lc \<Longrightarrow> foldedCompare lc = lc"
  by (intro ext) (simp add: foldedCompare_def caseInsensitive_def)

lemma foldCase_lower:
  "foldCase (if 65 \<le> (of_char c :: nat) \<and> (of_char c :: nat) \<le> 90
             then char_of (of_char c + 32 :: nat) else c) = foldCase c"
  by (simp add: foldCase_def Let_def)

lemma compareText_lowerCase: "compareText (lowerCase a) (lowerCase b) = compareText a b"
proof (induction a b rule: compareText.induct)
  case (4 x xs y ys)
  then show ?case
    unfolding lowerCase_def list.map compareText.simps foldCase_lower by simp
qed (simp_all add: lowerCase_def)

lemma caseInsensitive_compareText: "caseInsensitive compareText"
  unfolding caseInsensitive_def using compareText_lowerCase by blast

lemma array_sort_example:
  assumes n: "map (\<lambda>e. (entryName e, isDirEntry e)) contents =
                [(''b.txt'', False), (''A'', True), (''a.txt'', False)]"
    and lc: "lc ''b.txt'' ''a.txt'' > 0"
  shows "map entryName (array_sort (compareEntries lc) contents) = [''A'', ''a.txt'', ''b.txt'']"
proof -
  from n obtain x y z where c: "contents = [x, y, z]"
    by (cases contents; cases "tl contents"; cases "tl (tl contents)") auto
  have x: "entryName x = ''b.txt''" "\<not> isDirEntry x"
    and y: "entryName y = ''A''" "isDirEntry y"
    and z: "entryName z = ''a.txt''" "\<not> isDirEntry z"
    using n c by simp_all
  have yz: "compareEntries lc y z \<le> 0" using y z by (simp add: compareEntries_def)
  have xy: "\<not> compareEntries lc x y \<le> 0" using x y by (simp add: compareEntries_def)
  have xz: "\<not> compareEntries lc x z \<le> 0" using x z lc by (simp add: compareEntries_def)
  have "array_sort (compareEntries lc) contents = [y, z, x]"
    unfolding c array_sort_def using yz xy xz by simp
  then show ?thesis using x y z by simp
qed

text \<open>
  C7.  \<open>getRemoteFiles\<close> compares names by \<open>localeCompare\<close> with sensitivity
  \<open>base\<close>.  Take the collation of that sensitivity to be a total preorder that
  ignores the case of the letters.  Then every listing that
  \<open>getRemoteFiles\<close> returns holds, item by item, exactly the entries that the client has
  listed, arranged with the directories before the files and, within one kind, the names
  in the order of the collation on the names with their case folded (an entry without
  any name being ordered by the empty name); so the tree items are in that order by kind
  and label whenever every entry has a name.  In particular, when the client lists
  \<open>b.txt\<close>, the directory \<open>A\<close> and \<open>a.txt\<close>, and the collation puts
  \<open>b.txt\<close> after \<open>a.txt\<close>, the listing is \<open>A\<close>, \<open>a.txt\<close>, \<open>b.txt\<close>.
\<close>

theorem getRemoteFiles_sorted:
  assumes tp: "totalPreorder (localeCompare env SensBase)"
    and ci: "caseInsensitive (localeCompare env SensBase)"
    and g: "getRemoteFiles env p s = (Inr items, s')"
  shows "\<exists>contents entries.
           getDirectoryContents env p s = (Inr contents, s') \<and>
           mset entries = mset contents \<and>
           items = map (toTreeItem (currentBasePath s') p) entries \<and>
           sorted_wrt (entryLe (foldedCompare (localeCompare env SensBase))) entries \<and>
           ((\<forall>e \<in> set entries. entryName e \<noteq> []) \<longrightarrow>
              sorted_wrt (itemLe (foldedCompare (localeCompare env SensBase))) items) \<and>
           (map (\<lambda>e. (entryName e, isDirEntry e)) contents =
              [(''b.txt'', False), (''A'', True), (''a.txt'', False)] \<and>
            localeCompare env SensBase ''b.txt'' ''a.txt'' > 0 \<longrightarrow>
              map label items = [''A'', ''a.txt'', ''b.txt''])"
proof -
  let ?lc = "localeCompare env SensBase"
  from g obtain contents where
    c: "getDirectoryContents env p s = (Inr contents, s')" and
    items: "items = map (toTreeItem (currentBasePath s') p) (array_sort (compareEntries ?lc) contents)"
    by (auto simp: getRemoteFiles_def split: if_splits prod.splits sum.splits)
  let ?es = "array_sort (compareEntries ?lc) contents"
  have f: "foldedCompare ?lc = ?lc" by (rule foldedCompare_id [OF ci])
  have so: "sorted_wrt (entryLe ?lc) ?es" by (rule sorted_array_sort [OF tp])
  have si: "sorted_wrt (itemLe ?lc) items" if "\<forall>e \<in> set ?es. entryName e \<noteq> []"
    unfolding items sorted_wrt_map
    by (rule sorted_wrt_mono_rel [OF _ so]) (use that entryLe_itemLe in blast)
  have ex: "map label items = [''A'', ''a.txt'', ''b.txt'']"
    if h: "map (\<lambda>e. (entryName e, isDirEntry e)) contents =
            [(''b.txt'', False), (''A'', True), (''a.txt'', False)] \<and> ?lc ''b.txt'' ''a.txt'' > 0"
  proof -
    have n: "map entryName ?es = [''A'', ''a.txt'', ''b.txt'']"
      using array_sort_example [of contents ?lc] h by simp
    have "entryName e \<in> set (map entryName ?es)" if "e \<in> set ?es" for e
      using that by simp
    then have "entryName e \<noteq> []" if "e \<in> set ?es" for e
      using that unfolding n by fastforce
    then have "\<forall>e \<in> set ?es. entryName e \<noteq> []" by blast
    then have "map label items = map entryName ?es"
      unfolding items by (simp add: toTreeItem_label)
    then show ?thesis using n by simp
  qed
  have 1: "mset ?es = mset contents" by (rule mset_array_sort)
  have 2: "sorted_wrt (entryLe (foldedCompare ?lc)) ?es" unfolding f by (rule so)
  have 3: "(\<forall>e \<in> set ?es. entryName e \<noteq> []) \<longrightarrow>
             sorted_wrt (itemLe (foldedCompare ?lc)) items"
    unfolding f using si by (rule impI)
  have 4: "map (\<lambda>e. (entryName e, isDirEntry e)) contents =
             [(''b.txt'', False), (''A'', True), (''a.txt'', False)] \<and>
           ?lc ''b.txt'' ''a.txt'' > 0 \<longrightarrow> map label items = [''A'', ''a.txt'', ''b.txt'']"
    using ex by (rule impI)
  show ?thesis
    by (rule exI [of _ contents], rule exI [of _ ?es], intro conjI)
      (rule c, rule 1, rule items, rule 2, rule 3, rule 4)
qed

theorem getRemoteFiles_sorted_witness:
  "totalPreorder (localeCompare (storeEnv True) SensBase) \<and>
   caseInsensitive (localeCompare (storeEnv True) SensBase) \<and>
   map_sum (\<lambda>e. ()) (map (\<lambda>e. (entryName e, isDirEntry e)))
     (fst (getDirectoryContents (storeEnv True) ''/'' (connectedState listingStore))) =
     Inr [(''b.txt'', False), (''A'', True), (''a.txt'', False)] \<and>
   localeCompare (storeEnv True) SensBase ''b.txt'' ''a.txt'' > 0 \<and>
   map_sum (\<lambda>e. ()) (map label)
     (fst (getRemoteFiles (storeEnv True) ''/'' (connectedState listingStore))) =
     Inr [''A'', ''a.txt'', ''b.txt'']"
proof -
  let ?g = "getRemoteFiles (storeEnv True) ''/'' (connectedState listingStore)"
  let ?d = "getDirectoryContents (storeEnv True) ''/'' (connectedState listingStore)"
  have lc: "localeCompare (storeEnv True) SensBase = compareText" by (simp add: storeEnv_def)
  have h1: "totalPreorder (localeCompare (storeEnv True) SensBase)"
    unfolding lc by (rule totalPreorder_compareText)
  have h2: "caseInsensitive (localeCompare (storeEnv True) SensBase)"
    unfolding lc by (rule caseInsensitive_compareText)
  have n: "map_sum (\<lambda>e. ()) (map (\<lambda>e. (entryName e, isDirEntry e))) (fst ?d) =
      Inr [(''b.txt'', False), (''A'', True), (''a.txt'', False)]"
    by code_simp
  have o: "localeCompare (storeEnv True) SensBase ''b.txt'' ''a.txt'' > 0" by code_simp
  have "\<not> isl (fst ?g)" by code_simp
  then obtain items where i: "fst ?g = Inr items" by (cases "fst ?g") auto
  then have h3: "?g = (Inr items, snd ?g)" by (cases ?g) simp
  note w = getRemoteFiles_sorted [OF h1 h2 h3]
  have r: "map_sum (\<lambda>e. ()) (map label) (fst ?g) = Inr [''A'', ''a.txt'', ''b.txt'']"
  proof -
    from w obtain contents entries where
      c: "?d = (Inr contents, snd ?g)" and
      e: "map (\<lambda>e. (entryName e, isDirEntry e)) contents =
            [(''b.txt'', False), (''A'', True), (''a.txt'', False)] \<and>
          localeCompare (storeEnv True) SensBase ''b.txt'' ''a.txt'' > 0 \<longrightarrow>
            map label items = [''A'', ''a.txt'', ''b.txt'']"
      by (elim exE conjE)
    have "fst ?d = Inr contents" using c by simp
    then have m: "map (\<lambda>e. (entryName e, isDirEntry e)) contents =
          [(''b.txt'', False), (''A'', True), (''a.txt'', False)]"
      using n by simp
    have "map label items = [''A'', ''a.txt'', ''b.txt'']" by (rule mp [OF e conjI [OF m o]])
    then show ?thesis using i by simp
  qed
  show ?thesis by (intro conjI) (rule h1, rule h2, rule n, rule o, rule r)
qed

section \<open>Connecting\<close>

lemma connect_settles:
  "(case connectFailed (completeConnect env att r) of
      (Inr ok, s') \<Rightarrow>
        ok \<and> connectionPromise s' = connectionPromise (snd r) \<and>
        connection s' =
          Some \<lparr>client = att_client att, connected = True, serverUrl = att_serverUrl att,
                basePath = att_basePath att, username = att_username att,
                lastConnected = date_now env (world s')\<rparr>
    | (Inl e, s') \<Rightarrow> connectionPromise s' = connectionPromise (snd r) \<and> connection s' = None)"
  by (cases r; cases "fst r") (auto simp: completeConnect_def connectFailed_def)

lemma connectInternal_settles:
  "(case connectInternal env url user password bp s of
      (Inr ok, s') \<Rightarrow>
        ok \<and>
        connection s' =
          Some \<lparr>client = \<lparr>client_url = cleanServerUrl url, client_username = trim user,
                           client_password = trim password\<rparr>,
                connected = True, serverUrl = cleanServerUrl url, basePath = bp,
                username = user, lastConnected = date_now env (world s')\<rparr>
    | (Inl e, s') \<Rightarrow> connection s' = None)"
proof -
  let ?att = "\<lparr>att_client = \<lparr>client_url = cleanServerUrl url, client_username = trim user,
                                client_password = trim password\<rparr>,
               att_serverUrl = cleanServerUrl url, att_basePath = bp, att_username = user\<rparr>"
  let ?cl = "\<lparr>client_url = cleanServerUrl url, client_username = trim user,
              client_password = trim password\<rparr>"
  show ?thesis
  proof (cases "url = [] \<or> user = [] \<or> password = [] \<or>
                (\<not> startsWith url ''http://'' \<and> \<not> startsWith url ''https://'')")
    case True
    then show ?thesis by (auto simp: connectInternal_def connectFailed_def)
  next
    case False
    then have "connectInternal env url user password bp s =
        connectFailed (completeConnect env ?att (testConnectionInternal env ?cl bp s))"
      by (auto simp: connectInternal_def Let_def)
    then show ?thesis
      using connect_settles [where env = env and att = ?att
          and r = "testConnectionInternal env ?cl bp s"]
      by (simp split: prod.splits sum.splits)
  qed
qed

text \<open>
  C8.  \<open>connectInternal\<close> either returns \<open>true\<close> and leaves the session with all
  its fields set at once (the client made for the cleaned address and the trimmed
  credentials, the flag, the cleaned address, the base path and the user name as given,
  and the time of the clock at that moment), whatever session there was before; or it
  throws and leaves no session.  So does a \<open>connect\<close> that is called while no
  connect is in flight.  A \<open>connect\<close> that is called while another is in flight
  returns what that one returns: when that one is still pending, \<open>true\<close> with the
  whole session of that attempt, or its error with no session; when that one has already
  settled, its outcome, with the session as that one has left it.  In every case
  \<open>connect\<close> leaves no promise behind.
\<close>

theorem connect_atomic:
  "(case connectInternal env url user password bp s of
      (Inr ok, s') \<Rightarrow>
        ok \<and>
        connection s' =
          Some \<lparr>client = \<lparr>client_url = cleanServerUrl url, client_username = trim user,
                           client_password = trim password\<rparr>,
                connected = True, serverUrl = cleanServerUrl url, basePath = bp,
                username = user, lastConnected = date_now env (world s')\<rparr>
    | (Inl e, s') \<Rightarrow> connection s' = None) \<and>
   (case connectionPromise s of
      None \<Rightarrow>
        (case connect env url user password bp s of
           (Inr ok, s') \<Rightarrow>
             ok \<and> connectionPromise s' = None \<and>
             connection s' =
               Some \<lparr>client = \<lparr>client_url = cleanServerUrl url, client_username = trim user,
                                client_password = trim password\<rparr>,
                     connected = True, serverUrl = cleanServerUrl url, basePath = bp,
                     username = user, lastConnected = date_now env (world s')\<rparr>
         | (Inl e, s') \<Rightarrow> connectionPromise s' = None \<and> connection s' = None)
    | Some (Pending att st) \<Rightarrow>
        (case connect env url user password bp s of
           (Inr ok, s') \<Rightarrow>
             ok \<and> connectionPromise s' = None \<and>
             connection s' =
               Some \<lparr>client = att_client att, connected = True, serverUrl = att_serverUrl att,
                     basePath = att_basePath att, username = att_username att,
                     lastConnected = date_now env (world s')\<rparr>
         | (Inl e, s') \<Rightarrow> connectionPromise s' = None \<and> connection s' = None)
    | Some (Settled r) \<Rightarrow>
        connect env url user password bp s = (r, s\<lparr>connectionPromise := None\<rparr>))"
proof (rule conjI)
  show "(case connectInternal env url user password bp s of
      (Inr ok, s') \<Rightarrow>
        ok \<and>
        connection s' =
          Some \<lparr>client = \<lparr>client_url = cleanServerUrl url, client_username = trim user,
                           client_password = trim password\<rparr>,
                connected = True, serverUrl = cleanServerUrl url, basePath = bp,
                username = user, lastConnected = date_now env (world s')\<rparr>
    | (Inl e, s') \<Rightarrow> connection s' = None)"
    by (rule connectInternal_settles)
next
  show "(case connectionPromise s of
      None \<Rightarrow>
        (case connect env url user password bp s of
           (Inr ok, s') \<Rightarrow>
             ok \<and> connectionPromise s' = None \<and>
             connection s' =
               Some \<lparr>client = \<lparr>client_url = cleanServerUrl url, client_username = trim user,
                                client_password = trim password\<rparr>,
                     connected = True, serverUrl = cleanServerUrl url, basePath = bp,
                     username = user, lastConnected = date_now env (world s')\<rparr>
         | (Inl e, s') \<Rightarrow> connectionPromise s' = None \<and> connection s' = None)
    | Some (Pending att st) \<Rightarrow>
        (case connect env url user password bp s of
           (Inr ok, s') \<Rightarrow>
             ok \<and> connectionPromise s' = None \<and>
             connection s' =
               Some \<lparr>client = att_client att, connected = True, serverUrl = att_serverUrl att,
                     basePath = att_basePath att, username = att_username att,
                     lastConnected = date_now env (world s')\<rparr>
         | (Inl e, s') \<Rightarrow> connectionPromise s' = None \<and> connection s' = None)
    | Some (Settled r) \<Rightarrow>
        connect env url user password bp s = (r, s\<lparr>connectionPromise := None\<rparr>))"
  proof (cases "connectionPromise s")
    case None
    obtain r s1 where c: "connectInternal env url user password bp s = (r, s1)"
      by (cases "connectInternal env url user password bp s")
    have "connect env url user password bp s = (r, s1\<lparr>connectionPromise := None\<rparr>)"
      using None c by (simp add: connect_def)
    then show ?thesis
      using None c connectInternal_settles [where env = env and url = url and user = user
          and password = password and bp = bp and s = s]
      by (cases r) simp_all
  next
    case (Some promise)
    show ?thesis
    proof (cases promise)
      case (Settled r)
      then show ?thesis using Some by (simp add: connect_def)
    next
      case (Pending att st)
      let ?t = "resumeTest st env (att_client att) (att_basePath att) s"
      obtain r s1 where c: "connectFailed (completeConnect env att ?t) = (r, s1)"
        by (cases "connectFailed (completeConnect env att ?t)")
      have "connect env url user password bp s = (r, s1\<lparr>connectionPromise := None\<rparr>)"
        using Some Pending c by (simp add: connect_def resumeConnect_def)
      then show ?thesis
        using Some Pending c connect_settles [where env = env and att = att and r = ?t]
        by (cases r) simp_all
    qed
  qed
qed

theorem connect_atomic_witness:
  "connectionPromise (connectedState notesStore) = None \<and>
   fst (connect (storeEnv True) (''https://dav.example.org/'' @ [CHR 0xC2, CHR 0xA0]) '' ada''
          ''secret'' ''/notes'' (connectedState notesStore)) = Inr True \<and>
   map_option (\<lambda>c. (serverUrl c, client_username (client c), username c))
     (connection (snd (connect (storeEnv True) (''https://dav.example.org/'' @ [CHR 0xC2, CHR 0xA0])
        '' ada'' ''secret'' ''/notes'' (connectedState notesStore)))) =
     Some (''https://dav.example.org'', ''ada'', '' ada'') \<and>
   connection (snd (connect (storeEnv True) ''dav.example.org'' ''ada'' ''secret'' ''/notes''
        (connectedState notesStore))) = None \<and>
   connectionPromise connectInFlight = Some (Pending otherAttempt RootListing) \<and>
   fst (connect (storeEnv True) ''https://dav.example.org/'' ''ada'' ''secret'' ''/notes''
          connectInFlight) = Inr True \<and>
   map_option username
     (connection (snd (connect (storeEnv True) ''https://dav.example.org/'' ''ada'' ''secret''
        ''/notes'' connectInFlight))) = Some ''bob''"
proof -
  let ?url = "''https://dav.example.org/'' @ [CHR 0xC2, CHR 0xA0]"
  let ?ok = "connect (storeEnv True) ?url '' ada'' ''secret'' ''/notes'' (connectedState notesStore)"
  let ?bad = "connect (storeEnv True) ''dav.example.org'' ''ada'' ''secret'' ''/notes''
                (connectedState notesStore)"
  let ?late = "connect (storeEnv True) ''https://dav.example.org/'' ''ada'' ''secret'' ''/notes''
                 connectInFlight"
  have p0: "connectionPromise (connectedState notesStore) = None" by (simp add: connectedState_def)
  have p1: "connectionPromise connectInFlight = Some (Pending otherAttempt RootListing)"
    by (simp add: connectInFlight_def)
  have a: "fst ?ok = Inr True" by code_simp
  have u: "cleanServerUrl ?url = ''https://dav.example.org''" by code_simp
  have t: "trim '' ada'' = ''ada''" by code_simp
  have 1: "map_option (\<lambda>c. (serverUrl c, client_username (client c), username c))
      (connection (snd ?ok)) = Some (''https://dav.example.org'', ''ada'', '' ada'')"
    using connect_atomic [where env = "storeEnv True" and url = ?url
        and user = "'' ada''" and password = "''secret''" and bp = "''/notes''"
        and s = "connectedState notesStore", THEN conjunct2] a u t p0
    by (cases ?ok) auto
  have "isl (fst ?bad)" by code_simp
  then have 2: "connection (snd ?bad) = None"
    using connect_atomic [where env = "storeEnv True" and url = "''dav.example.org''"
        and user = "''ada''" and password = "''secret''" and bp = "''/notes''"
        and s = "connectedState notesStore", THEN conjunct2] p0
    by (cases ?bad) (auto simp: isl_def)
  have b: "fst ?late = Inr True" by code_simp
  have n: "att_username otherAttempt = ''bob''" by (simp add: otherAttempt_def)
  have 3: "map_option username (connection (snd ?late)) = Some ''bob''"
    using connect_atomic [where env = "storeEnv True" and url = "''https://dav.example.org/''"
        and user = "''ada''" and password = "''secret''" and bp = "''/notes''"
        and s = connectInFlight, THEN conjunct2] b n p1
    by (cases ?late) auto
  show ?thesis using p0 p1 a 1 2 b 3 by simp
qed
end
